theory Spec2Isabelle
  imports Complex_Main "HOL-Library.AList"
begin

section \<open>The chat hub of KartikSindura/chat\<close>

text \<open>
  The repository holds two variants of one program: \<^verbatim>\<open>main.go\<close> (anonymous chat) and
  \<^verbatim>\<open>legacy.go\<close> (every message carries a pointer to the sender's display name). In both,
  the function \<^verbatim>\<open>server\<close> is an endless loop that receives one \<^verbatim>\<open>Message\<close> from a channel
  and handles it to the end before receiving the next. The loop body is embedded as a
  step function on the two maps the loop owns; a run of the loop over a finite prefix
  of the channel's contents is the iteration of the step.

  Everything the body obtains from outside is an input of the step (record \<open>env\<close>): the
  readings of \<^verbatim>\<open>time.Now()\<close> and the outcome of each \<^verbatim>\<open>Conn.Write\<close>. Everything the
  body does to the outside is an output (a list of \<open>effect\<close>s, in program order).
\<close>

subsection \<open>Constants\<close>

text \<open>
  \<^verbatim>\<open>SafeMode\<close> is a compile-time constant of the source. The functions below take its value
  as their first argument, so that both settings can be compared.
\<close>

definition SafeMode :: bool where
  "SafeMode = True"

definition MessageRate :: real where
  "MessageRate = 1"

definition BanLimit :: real where
  "BanLimit = 10"

definition StrikeLimit :: int where
  "StrikeLimit = 10"

definition sensitive :: "bool \<Rightarrow> string \<Rightarrow> string" where
  "sensitive safeMode message = (if safeMode then ''[REDACTED]'' else message)"

subsection \<open>Time\<close>

text \<open>
  A \<^verbatim>\<open>time.Time\<close> obtained from \<^verbatim>\<open>time.Now()\<close> is modelled by its clock reading in
  nanoseconds, a \<^verbatim>\<open>time.Duration\<close> by its count of nanoseconds. \<^verbatim>\<open>Time.Sub\<close> saturates
  at the least and greatest \<^verbatim>\<open>Duration\<close>. \<^verbatim>\<open>Duration.Seconds\<close> is taken exactly; the source
  only compares it with the constants 1.0 and 10.0, which are whole numbers of seconds
  far from the rounding error of a 64-bit float, and prints it in the ban notice.
\<close>

type_synonym Time = int

type_synonym Duration = int

definition minDuration :: Duration where
  "minDuration = - 9223372036854775808"

definition maxDuration :: Duration where
  "maxDuration = 9223372036854775807"

definition Sub :: "Time \<Rightarrow> Time \<Rightarrow> Duration" where
  "Sub t u =
     (let d = t - u
      in if maxDuration < d then maxDuration
         else if d < minDuration then minDuration
         else d)"

definition Seconds :: "Duration \<Rightarrow> real" where
  "Seconds d = real_of_int d / 1000000000"

subsection \<open>Integers\<close>

text \<open>\<^verbatim>\<open>author.StrikeCount++\<close> on Go's 64-bit \<^verbatim>\<open>int\<close>: the greatest value wraps to the least.\<close>

definition int_incr :: "int \<Rightarrow> int" where
  "int_incr n = (if n = 9223372036854775807 then - 9223372036854775808 else n + 1)"

subsection \<open>Text\<close>

text \<open>
  A Go string is a sequence of bytes, here a list of 8-bit characters.
  \<^verbatim>\<open>utf8.ValidString\<close> belongs to Go's standard library; it is modelled after its
  documented behaviour (the well-formed byte sequences of UTF-8: no overlong forms, no
  surrogates, nothing above U+10FFFF, no truncated sequence).
\<close>

definition byte_in :: "nat \<Rightarrow> nat \<Rightarrow> char \<Rightarrow> bool" where
  "byte_in lo hi c = (lo \<le> of_char c \<and> (of_char c :: nat) \<le> hi)"

fun ValidString :: "string \<Rightarrow> bool" where
  "ValidString [] = True"
| "ValidString (c # cs) =
     (let b = (of_char c :: nat)
      in if b < 0x80 then ValidString cs
         else if 0xC2 \<le> b \<and> b \<le> 0xDF then
           (case cs of
              c1 # r \<Rightarrow> byte_in 0x80 0xBF c1 \<and> ValidString r
            | _ \<Rightarrow> False)
         else if 0xE0 \<le> b \<and> b \<le> 0xEF then
           (case cs of
              c1 # c2 # r \<Rightarrow>
                byte_in (if b = 0xE0 then 0xA0 else 0x80) (if b = 0xED then 0x9F else 0xBF) c1
                \<and> byte_in 0x80 0xBF c2 \<and> ValidString r
            | _ \<Rightarrow> False)
         else if 0xF0 \<le> b \<and> b \<le> 0xF4 then
           (case cs of
              c1 # c2 # c3 # r \<Rightarrow>
                byte_in (if b = 0xF0 then 0x90 else 0x80) (if b = 0xF4 then 0x8F else 0xBF) c1
                \<and> byte_in 0x80 0xBF c2 \<and> byte_in 0x80 0xBF c3 \<and> ValidString r
            | _ \<Rightarrow> False)
         else False)"

subsection \<open>Connections, messages, sessions\<close>

text \<open>
  A \<^verbatim>\<open>net.Conn\<close> is an opaque handle. The hub reads two strings from it:
  \<^verbatim>\<open>RemoteAddr().String()\<close>, the key of the registry, and the \<^verbatim>\<open>IP.String()\<close> of the
  same address, the key of the ban list. Two handles may carry the same address.
  A \<^verbatim>\<open>Message\<close> holds an interface value that may be nil (\<open>None\<close>): \<^verbatim>\<open>main\<close> of
  \<^verbatim>\<open>main.go\<close> sends the connection it got from \<^verbatim>\<open>Accept\<close> even when \<^verbatim>\<open>Accept\<close> failed.
\<close>

record conn =
  conn_id :: nat
  RemoteAddr_IP_String :: string
  RemoteAddr_String :: string

type_synonym MessageType = int

definition ClientConnected :: MessageType where
  "ClientConnected = 1"

definition NewMessage :: MessageType where
  "NewMessage = 2"

definition ClientDisconnected :: MessageType where
  "ClientDisconnected = 3"

record Message =
  Type :: MessageType
  Conn :: "conn option"
  Text :: string

record Client =
  Conn :: conn
  LastMessage :: Time
  StrikeCount :: int

text \<open>The structs of \<^verbatim>\<open>legacy.go\<close> have one more field, a \<^verbatim>\<open>*string\<close> (nil is \<open>None\<close>).\<close>

record LegacyMessage = Message +
  Name :: "string option"

record LegacyClient = Client +
  Name :: "string option"

text \<open>
  The two maps of \<^verbatim>\<open>server\<close>. \<^verbatim>\<open>clients\<close> is iterated by the broadcast loop, so it is an
  association list with one entry per key (\<open>AList.update\<close> overwrites in place,
  \<open>AList.delete\<close> removes); Go leaves the iteration order of a map open, and the list's
  order stands for the order the runtime picks. Each \<^verbatim>\<open>*Client\<close> is created by the
  Connected case and stored under one key only, so a write through the pointer is an
  update of that entry.
\<close>

record 'c hub =
  clients :: "(string \<times> 'c) list"
  bannedMfs :: "string \<rightharpoonup> Time"

definition hub_init :: "'c hub" where
  "hub_init = \<lparr>clients = [], bannedMfs = Map.empty\<rparr>"

subsection \<open>Inputs and outputs of one pass of the loop\<close>

record env =
  Now :: Time
  Now_again :: Time
  WriteErr :: "conn \<Rightarrow> string option"

text \<open>
  \<open>Now\<close> is the reading bound to \<^verbatim>\<open>now\<close>; \<open>Now_again\<close> is the second call of
  \<^verbatim>\<open>time.Now()\<close> that the Connected case makes for \<^verbatim>\<open>LastMessage\<close>; \<open>WriteErr c\<close> is
  the text of the error that a broadcast write to \<open>c\<close> returns, \<open>None\<close> when it succeeds.
\<close>

datatype bytes =
  Payload string
  | BanNotice real

text \<open>
  \<open>BanNotice r\<close> stands for the bytes of
  \<^verbatim>\<open>fmt.Sprintf("You are banned buddy: %f seconds left\n", r)\<close>.
\<close>

datatype effect =
  Write conn bytes
  | Close conn
  | Log string

datatype panic = NilDereference

fun is_Log :: "effect \<Rightarrow> bool" where
  "is_Log (Log _) = True"
| "is_Log _ = False"

fun is_Write :: "effect \<Rightarrow> bool" where
  "is_Write (Write _ _) = True"
| "is_Write _ = False"

fun is_Close :: "effect \<Rightarrow> bool" where
  "is_Close (Close _) = True"
| "is_Close _ = False"

text \<open>An effect with the text of a log line blanked.\<close>

fun redact :: "effect \<Rightarrow> effect" where
  "redact (Log t) = Log []"
| "redact (Write c b) = Write c b"
| "redact (Close c) = Close c"

definition nl :: string where
  "nl = [CHR 0x0A]"

subsection \<open>The broadcast loop\<close>

text \<open>
  \<^verbatim>\<open>for _, client := range clients { if client.Conn.RemoteAddr().String() != authorAddr.String() { ... } }\<close>,
  the same in both files but for the bytes written.
\<close>

fun broadcast ::
  "bool \<Rightarrow> (conn \<Rightarrow> string option) \<Rightarrow> string \<Rightarrow> string \<Rightarrow> (string \<times> 'a Client_scheme) list \<Rightarrow> effect list"
where
  "broadcast safeMode werr authorAddr payload [] = []"
| "broadcast safeMode werr authorAddr payload ((k, client) # rest) =
     (if RemoteAddr_String (Client.Conn client) \<noteq> authorAddr then
        Write (Client.Conn client) (Payload payload)
        # (case werr (Client.Conn client) of
             None \<Rightarrow> []
           | Some err \<Rightarrow>
               [Log (''could not send data to ''
                     @ sensitive safeMode (RemoteAddr_String (Client.Conn client))
                     @ '': '' @ sensitive safeMode err @ nl)])
      else [])
     @ broadcast safeMode werr authorAddr payload rest"

subsection \<open>One pass of the loop of \<^verbatim>\<open>server\<close> in \<^verbatim>\<open>main.go\<close>\<close>

text \<open>
  The \<^verbatim>\<open>switch\<close> has no default case: a message of any other type is dropped.
  A nil \<^verbatim>\<open>msg.Conn\<close> panics at \<^verbatim>\<open>msg.Conn.RemoteAddr()\<close>, before any effect.
  In the Connected case the flag \<^verbatim>\<open>banned\<close> is true at the final \<^verbatim>\<open>if\<close> exactly when
  the host has a record that has not expired; the three outcomes are the three branches
  below.
\<close>

definition server_step ::
  "bool \<Rightarrow> env \<Rightarrow> Client hub \<Rightarrow> Message \<Rightarrow> panic + (Client hub \<times> effect list)"
where
  "server_step safeMode e s msg =
     (if Type msg = ClientConnected then
        (case Message.Conn msg of
           None \<Rightarrow> Inl NilDereference
         | Some c \<Rightarrow>
             let ip = RemoteAddr_IP_String c;
                 now = Now e;
                 admitted = (\<lambda>bans.
                   Inr (\<lparr>clients = AList.update (RemoteAddr_String c)
                                      \<lparr>Client.Conn = c, LastMessage = Now_again e, StrikeCount = 0\<rparr>
                                      (clients s),
                         bannedMfs = bans\<rparr>,
                        [Log (''Client '' @ sensitive safeMode ip @ '' connected'' @ nl)]))
             in (case bannedMfs s ip of
                   None \<Rightarrow> admitted (bannedMfs s)
                 | Some bannedAt \<Rightarrow>
                     if BanLimit \<le> Seconds (Sub now bannedAt) then
                       admitted ((bannedMfs s)(ip := None))
                     else
                       Inr (s, [Write c (BanNotice (BanLimit - Seconds (Sub now bannedAt))),
                                Close c])))
      else if Type msg = ClientDisconnected then
        (case Message.Conn msg of
           None \<Rightarrow> Inl NilDereference
         | Some c \<Rightarrow>
             Inr (s\<lparr>clients := AList.delete (RemoteAddr_String c) (clients s)\<rparr>,
                  [Log (''Client '' @ sensitive safeMode (RemoteAddr_String c)
                        @ '' disconnected'' @ nl)]))
      else if Type msg = NewMessage then
        (case Message.Conn msg of
           None \<Rightarrow> Inl NilDereference
         | Some c \<Rightarrow>
             let now = Now e;
                 authorAddr = RemoteAddr_String c;
                 authorIP = RemoteAddr_IP_String c
             in (case map_of (clients s) authorAddr of
                   Some author \<Rightarrow>
                     if MessageRate \<le> Seconds (Sub now (LastMessage author)) then
                       if ValidString (Text msg) then
                         let clients' = AList.update authorAddr
                                          (author\<lparr>StrikeCount := 0, LastMessage := now\<rparr>)
                                          (clients s)
                         in Inr (s\<lparr>clients := clients'\<rparr>,
                                 Log (''Client '' @ sensitive safeMode authorAddr @ '' sent: ''
                                      @ Text msg)
                                 # broadcast safeMode (WriteErr e) authorAddr (Text msg) clients')
                       else
                         let author' = author\<lparr>StrikeCount := int_incr (StrikeCount author)\<rparr>;
                             clients' = AList.update authorAddr author' (clients s)
                         in if StrikeLimit < StrikeCount author' then
                              Inr (\<lparr>clients = clients',
                                    bannedMfs = (bannedMfs s)(authorIP \<mapsto> now)\<rparr>,
                                   [Close (Client.Conn author')])
                            else Inr (s\<lparr>clients := clients'\<rparr>, [])
                     else
                       let author' = author\<lparr>StrikeCount := int_incr (StrikeCount author)\<rparr>;
                           clients' = AList.update authorAddr author' (clients s)
                       in if StrikeLimit < StrikeCount author' then
                            Inr (\<lparr>clients = clients',
                                  bannedMfs = (bannedMfs s)(authorIP \<mapsto> now)\<rparr>,
                                 [Close (Client.Conn author')])
                          else Inr (s\<lparr>clients := clients'\<rparr>, [])
                 | None \<Rightarrow> Inr (s, [Close c])))
      else Inr (s, []))"

subsection \<open>One pass of the loop of \<^verbatim>\<open>server\<close> in \<^verbatim>\<open>legacy.go\<close>\<close>

text \<open>
  The same loop with names. \<^verbatim>\<open>*name\<close> and \<^verbatim>\<open>*msg.Name\<close> panic on a nil pointer: in the
  Connected case when the connection is admitted, in the NewMessage case when the
  message is accepted. Neither is preceded by an effect. The function \<^verbatim>\<open>client\<close> of
  \<^verbatim>\<open>legacy.go\<close> sets \<^verbatim>\<open>Name\<close> in every Connected and NewMessage message it sends.
\<close>

definition legacy_server_step ::
  "bool \<Rightarrow> env \<Rightarrow> LegacyClient hub \<Rightarrow> LegacyMessage \<Rightarrow> panic + (LegacyClient hub \<times> effect list)"
where
  "legacy_server_step safeMode e s msg =
     (if Type msg = ClientConnected then
        (case Message.Conn msg of
           None \<Rightarrow> Inl NilDereference
         | Some c \<Rightarrow>
             let ip = RemoteAddr_IP_String c;
                 now = Now e;
                 name = LegacyMessage.Name msg;
                 admitted = (\<lambda>bans.
                   case name of
                     None \<Rightarrow> Inl NilDereference
                   | Some n \<Rightarrow>
                       Inr (\<lparr>clients = AList.update (RemoteAddr_String c)
                                          \<lparr>Client.Conn = c, LastMessage = Now_again e,
                                           StrikeCount = 0, LegacyClient.Name = name\<rparr>
                                          (clients s),
                             bannedMfs = bans\<rparr>,
                            [Log (n @ '' connected: '' @ sensitive safeMode ip @ nl)]))
             in (case bannedMfs s ip of
                   None \<Rightarrow> admitted (bannedMfs s)
                 | Some bannedAt \<Rightarrow>
                     if BanLimit \<le> Seconds (Sub now bannedAt) then
                       admitted ((bannedMfs s)(ip := None))
                     else
                       Inr (s, [Write c (BanNotice (BanLimit - Seconds (Sub now bannedAt))),
                                Close c])))
      else if Type msg = ClientDisconnected then
        (case Message.Conn msg of
           None \<Rightarrow> Inl NilDereference
         | Some c \<Rightarrow>
             Inr (s\<lparr>clients := AList.delete (RemoteAddr_String c) (clients s)\<rparr>,
                  [Log (''Client '' @ sensitive safeMode (RemoteAddr_String c)
                        @ '' disconnected'' @ nl)]))
      else if Type msg = NewMessage then
        (case Message.Conn msg of
           None \<Rightarrow> Inl NilDereference
         | Some c \<Rightarrow>
             let now = Now e;
                 authorAddr = RemoteAddr_String c;
                 authorIP = RemoteAddr_IP_String c
             in (case map_of (clients s) authorAddr of
                   Some author \<Rightarrow>
                     if MessageRate \<le> Seconds (Sub now (LastMessage author)) then
                       if ValidString (Text msg) then
                         (case LegacyMessage.Name msg of
                            None \<Rightarrow> Inl NilDereference
                          | Some n \<Rightarrow>
                              let clients' = AList.update authorAddr
                                               (author\<lparr>StrikeCount := 0, LastMessage := now\<rparr>)
                                               (clients s);
                                  payload = n @ '': '' @ Text msg
                              in Inr (s\<lparr>clients := clients'\<rparr>,
                                      Log (n @ '' sent: '' @ Text msg)
                                      # broadcast safeMode (WriteErr e) authorAddr payload clients'))
                       else
                         let author' = author\<lparr>StrikeCount := int_incr (StrikeCount author)\<rparr>;
                             clients' = AList.update authorAddr author' (clients s)
                         in if StrikeLimit < StrikeCount author' then
                              Inr (\<lparr>clients = clients',
                                    bannedMfs = (bannedMfs s)(authorIP \<mapsto> now)\<rparr>,
                                   [Close (Client.Conn author')])
                            else Inr (s\<lparr>clients := clients'\<rparr>, [])
                     else
                       let author' = author\<lparr>StrikeCount := int_incr (StrikeCount author)\<rparr>;
                           clients' = AList.update authorAddr author' (clients s)
                       in if StrikeLimit < StrikeCount author' then
                            Inr (\<lparr>clients = clients',
                                  bannedMfs = (bannedMfs s)(authorIP \<mapsto> now)\<rparr>,
                                 [Close (Client.Conn author')])
                          else Inr (s\<lparr>clients := clients'\<rparr>, [])
                 | None \<Rightarrow> Inr (s, [Close c])))
      else Inr (s, []))"

subsection \<open>Runs of the loop\<close>

text \<open>
  The loop over a finite prefix of what the channel delivers, each message with the
  inputs of its pass. A panic ends the process; the effects of the earlier passes stay.
\<close>

fun server ::
  "bool \<Rightarrow> Client hub \<Rightarrow> (env \<times> Message) list \<Rightarrow> (panic + Client hub) \<times> effect list"
where
  "server safeMode s [] = (Inr s, [])"
| "server safeMode s ((e, msg) # rest) =
     (case server_step safeMode e s msg of
        Inl p \<Rightarrow> (Inl p, [])
      | Inr (s', out) \<Rightarrow>
          (case server safeMode s' rest of (r, out') \<Rightarrow> (r, out @ out')))"

fun legacy_server ::
  "bool \<Rightarrow> LegacyClient hub \<Rightarrow> (env \<times> LegacyMessage) list \<Rightarrow> (panic + LegacyClient hub) \<times> effect list"
where
  "legacy_server safeMode s [] = (Inr s, [])"
| "legacy_server safeMode s ((e, msg) # rest) =
     (case legacy_server_step safeMode e s msg of
        Inl p \<Rightarrow> (Inl p, [])
      | Inr (s', out) \<Rightarrow>
          (case legacy_server safeMode s' rest of (r, out') \<Rightarrow> (r, out @ out')))"

subsection \<open>Well-formed registries\<close>

text \<open>
  Every key of the registry occurs once and is the remote address of the connection
  stored under it. The empty registry is well formed and every pass of the loop keeps
  it so (lemmas \<open>server_registry_ok\<close> and \<open>legacy_server_registry_ok\<close>).
\<close>

definition registry_ok :: "'a Client_scheme hub \<Rightarrow> bool" where
  "registry_ok s =
     (distinct (map fst (clients s))
      \<and> list_all (\<lambda>(k, cl). RemoteAddr_String (Client.Conn cl) = k) (clients s))"


subsection \<open>Bounded strike counts\<close>

text \<open>
  Every strike count of the registry lies between 0 and \<open>n\<close>. It holds with \<open>n = 0\<close> in
  the empty state, and a pass raises the bound by one at most; so a count reaches the
  greatest \<^verbatim>\<open>int\<close>, where \<^verbatim>\<open>++\<close> wraps, only after that many messages (lemmas
  \<open>server_strikes_within\<close> and \<open>legacy_server_strikes_within\<close>).
\<close>

definition strikes_within :: "int \<Rightarrow> 'a Client_scheme hub \<Rightarrow> bool" where
  "strikes_within n s = list_all (\<lambda>(k, cl). 0 \<le> StrikeCount cl \<and> StrikeCount cl \<le> n) (clients s)"

subsection \<open>Example connections, messages and states\<close>

text \<open>
  The messages are built as \<^verbatim>\<open>main\<close> and \<^verbatim>\<open>client\<close> build them: a Connected and a
  Disconnected message leave \<^verbatim>\<open>Text\<close> empty, and \<^verbatim>\<open>legacy.go\<close> leaves \<^verbatim>\<open>Name\<close> nil in a
  Disconnected message.
\<close>

definition alice :: conn where
  "alice = \<lparr>conn_id = 1, RemoteAddr_IP_String = ''10.0.0.5'', RemoteAddr_String = ''10.0.0.5:40001''\<rparr>"

definition bob :: conn where
  "bob = \<lparr>conn_id = 2, RemoteAddr_IP_String = ''10.0.0.6'', RemoteAddr_String = ''10.0.0.6:40002''\<rparr>"

definition carol :: conn where
  "carol = \<lparr>conn_id = 3, RemoteAddr_IP_String = ''10.0.0.7'', RemoteAddr_String = ''10.0.0.7:40003''\<rparr>"

definition at_time :: "Time \<Rightarrow> env" where
  "at_time t = \<lparr>Now = t, Now_again = t, WriteErr = (\<lambda>c. None)\<rparr>"

definition flaky :: "Time \<Rightarrow> env" where
  "flaky t =
     \<lparr>Now = t, Now_again = t,
      WriteErr = (\<lambda>c. if conn_id c = 2 then Some ''broken pipe'' else None)\<rparr>"

definition msg_connected :: "conn \<Rightarrow> Message" where
  "msg_connected c = \<lparr>Type = ClientConnected, Conn = Some c, Text = []\<rparr>"

definition msg_inbound :: "conn \<Rightarrow> string \<Rightarrow> Message" where
  "msg_inbound c t = \<lparr>Type = NewMessage, Conn = Some c, Text = t\<rparr>"

definition msg_disconnected :: "conn \<Rightarrow> Message" where
  "msg_disconnected c = \<lparr>Type = ClientDisconnected, Conn = Some c, Text = []\<rparr>"


definition dave :: conn where
  "dave = \<lparr>conn_id = 4, RemoteAddr_IP_String = ''10.0.0.8'', RemoteAddr_String = ''10.0.0.8:40004''\<rparr>"

definition legacy_connected :: "conn \<Rightarrow> string \<Rightarrow> LegacyMessage" where
  "legacy_connected c n =
     \<lparr>Type = ClientConnected, Conn = Some c, Text = [], LegacyMessage.Name = Some n\<rparr>"

definition legacy_inbound :: "conn \<Rightarrow> string \<Rightarrow> string \<Rightarrow> LegacyMessage" where
  "legacy_inbound c n t = \<lparr>Type = NewMessage, Conn = Some c, Text = t, LegacyMessage.Name = Some n\<rparr>"

definition legacy_disconnected :: "conn \<Rightarrow> LegacyMessage" where
  "legacy_disconnected c =
     \<lparr>Type = ClientDisconnected, Conn = Some c, Text = [], LegacyMessage.Name = None\<rparr>"

definition session :: "conn \<Rightarrow> Time \<Rightarrow> int \<Rightarrow> Client" where
  "session c t n = \<lparr>Client.Conn = c, LastMessage = t, StrikeCount = n\<rparr>"

definition legacy_session :: "conn \<Rightarrow> string \<Rightarrow> Time \<Rightarrow> int \<Rightarrow> LegacyClient" where
  "legacy_session c name t n =
     \<lparr>Client.Conn = c, LastMessage = t, StrikeCount = n, LegacyClient.Name = Some name\<rparr>"

definition lobby :: "Client hub" where
  "lobby =
     \<lparr>clients = [(RemoteAddr_String alice, session alice 0 10),
                 (RemoteAddr_String bob, session bob 0 0),
                 (RemoteAddr_String carol, session carol 0 3)],
      bannedMfs = [RemoteAddr_IP_String dave \<mapsto> 0]\<rparr>"

definition legacy_lobby :: "LegacyClient hub" where
  "legacy_lobby =
     \<lparr>clients = [(RemoteAddr_String alice, legacy_session alice ''al'' 0 10),
                 (RemoteAddr_String bob, legacy_session bob ''bo'' 0 0),
                 (RemoteAddr_String carol, legacy_session carol ''ca'' 0 3)],
      bannedMfs = [RemoteAddr_IP_String dave \<mapsto> 0]\<rparr>"

text \<open>A second connection from the host of \<open>alice\<close>, and a burst of messages.\<close>

definition alice_tab :: conn where
  "alice_tab = \<lparr>conn_id = 5, RemoteAddr_IP_String = ''10.0.0.5'', RemoteAddr_String = ''10.0.0.5:40009''\<rparr>"

definition shared_host :: "Client hub" where
  "shared_host =
     \<lparr>clients = [(RemoteAddr_String alice, session alice 0 10),
                 (RemoteAddr_String alice_tab, session alice_tab 0 2),
                 (RemoteAddr_String bob, session bob 0 0)],
      bannedMfs = [RemoteAddr_IP_String dave \<mapsto> 0]\<rparr>"

definition legacy_shared_host :: "LegacyClient hub" where
  "legacy_shared_host =
     \<lparr>clients = [(RemoteAddr_String alice, legacy_session alice ''al'' 0 10),
                 (RemoteAddr_String alice_tab, legacy_session alice_tab ''al2'' 0 2),
                 (RemoteAddr_String bob, legacy_session bob ''bo'' 0 0)],
      bannedMfs = [RemoteAddr_IP_String dave \<mapsto> 0]\<rparr>"

definition flood :: "(env \<times> Message) list" where
  "flood =
     (at_time 0, msg_connected alice) # (at_time 0, msg_connected alice_tab)
     # map (\<lambda>t. (at_time t, msg_inbound alice ''hi'')) [1000000, 2000000, 3000000, 4000000, 5000000, 6000000, 7000000,
          8000000, 9000000, 10000000, 11000000]"

definition legacy_flood :: "(env \<times> LegacyMessage) list" where
  "legacy_flood =
     (at_time 0, legacy_connected alice ''al'') # (at_time 0, legacy_connected alice_tab ''al2'')
     # map (\<lambda>t. (at_time t, legacy_inbound alice ''al'' ''hi'')) [1000000, 2000000, 3000000, 4000000, 5000000, 6000000, 7000000,
          8000000, 9000000, 10000000, 11000000]"

section \<open>Lemmas\<close>

lemmas MessageType_defs = ClientConnected_def NewMessage_def ClientDisconnected_def

lemmas example_defs =
  alice_def bob_def carol_def dave_def at_time_def msg_connected_def msg_inbound_def
  msg_disconnected_def legacy_connected_def legacy_inbound_def legacy_disconnected_def
  alice_tab_def shared_host_def legacy_shared_host_def flood_def legacy_flood_def flaky_def session_def legacy_session_def lobby_def legacy_lobby_def hub_init_def SafeMode_def

lemmas constant_defs =
  MessageType_defs Seconds_def Sub_def maxDuration_def minDuration_def MessageRate_def
  BanLimit_def StrikeLimit_def int_incr_def

subsection \<open>Elapsed time, counters, the broadcast loop, the registry\<close>


lemma BanLimit_elapsed: "(BanLimit \<le> Seconds (Sub now T)) = (T + 10000000000 \<le> now)"
  by (simp add: BanLimit_def Seconds_def Sub_def Let_def maxDuration_def minDuration_def field_simps)

lemma MessageRate_elapsed: "(MessageRate \<le> Seconds (Sub now T)) = (T + 1000000000 \<le> now)"
  by (simp add: MessageRate_def Seconds_def Sub_def Let_def maxDuration_def minDuration_def field_simps)

lemma int_incr_succ: "n \<noteq> 9223372036854775807 \<Longrightarrow> int_incr n = n + 1"
  by (simp add: int_incr_def)

lemma broadcast_writes:
  "filter is_Write (broadcast safeMode werr a p xs) =
   map (\<lambda>(k, cl). Write (Client.Conn cl) (Payload p))
       (filter (\<lambda>(k, cl). RemoteAddr_String (Client.Conn cl) \<noteq> a) xs)"
  by (induction xs) (auto split: option.splits)

lemma broadcast_no_close: "filter is_Close (broadcast safeMode werr a p xs) = []"
  by (induction xs) (auto split: option.splits)

lemma broadcast_not_log:
  "filter (\<lambda>x. \<not> is_Log x) (broadcast safeMode werr a p xs) =
   filter (\<lambda>x. \<not> is_Log x) (broadcast safeMode' werr' a p xs)"
  by (induction xs) (auto split: option.splits)

lemma update_keyed:
  "list_all (\<lambda>(k, cl). RemoteAddr_String (Client.Conn cl) = k) xs \<Longrightarrow>
   RemoteAddr_String (Client.Conn v) = k \<Longrightarrow>
   list_all (\<lambda>(k, cl). RemoteAddr_String (Client.Conn cl) = k) (AList.update k v xs)"
  by (induction xs) auto

lemma delete_keyed:
  "list_all P xs \<Longrightarrow> list_all P (AList.delete k xs)"
  by (induction xs) auto

lemma map_of_keyed:
  "list_all (\<lambda>(k, cl). RemoteAddr_String (Client.Conn cl) = k) xs \<Longrightarrow>
   map_of xs k = Some v \<Longrightarrow> RemoteAddr_String (Client.Conn v) = k"
  by (induction xs) (auto split: if_splits)

lemma registry_ok_update:
  "registry_ok s \<Longrightarrow> RemoteAddr_String (Client.Conn v) = k \<Longrightarrow>
   registry_ok (s\<lparr>clients := AList.update k v (clients s)\<rparr>)"
  "registry_ok s \<Longrightarrow> RemoteAddr_String (Client.Conn v) = k \<Longrightarrow>
   registry_ok \<lparr>clients = AList.update k v (clients s), bannedMfs = b\<rparr>"
  by (simp_all add: registry_ok_def distinct_update update_keyed del: split_paired_All)

lemma registry_ok_delete:
  "registry_ok s \<Longrightarrow> registry_ok (s\<lparr>clients := AList.delete k (clients s)\<rparr>)"
  by (simp add: registry_ok_def distinct_delete delete_keyed)

lemma registry_ok_session:
  "registry_ok s \<Longrightarrow> map_of (clients s) k = Some v \<Longrightarrow> RemoteAddr_String (Client.Conn v) = k"
  unfolding registry_ok_def by (blast intro: map_of_keyed)

subsection \<open>The branches of one pass\<close>

lemma server_step_nil:
  "Type msg = ClientConnected \<or> Type msg = ClientDisconnected \<or> Type msg = NewMessage \<Longrightarrow>
   Message.Conn msg = None \<Longrightarrow> server_step safeMode e s msg = Inl NilDereference"
  by (auto simp add: server_step_def Let_def MessageType_defs)

lemma server_step_other:
  "Type msg \<noteq> ClientConnected \<Longrightarrow> Type msg \<noteq> ClientDisconnected \<Longrightarrow> Type msg \<noteq> NewMessage \<Longrightarrow>
   server_step safeMode e s msg = Inr (s, [])"
  by (simp add: server_step_def Let_def MessageType_defs)

lemma server_step_connected_unbanned:
  "Type msg = ClientConnected \<Longrightarrow> Message.Conn msg = Some c \<Longrightarrow>
   bannedMfs s (RemoteAddr_IP_String c) = None \<Longrightarrow>
   server_step safeMode e s msg =
     Inr (\<lparr>clients = AList.update (RemoteAddr_String c)
                        \<lparr>Client.Conn = c, LastMessage = Now_again e, StrikeCount = 0\<rparr> (clients s),
           bannedMfs = bannedMfs s\<rparr>,
          [Log (''Client '' @ sensitive safeMode (RemoteAddr_IP_String c) @ '' connected'' @ nl)])"
  by (simp add: server_step_def Let_def MessageType_defs)

lemma server_step_connected_expired:
  "Type msg = ClientConnected \<Longrightarrow> Message.Conn msg = Some c \<Longrightarrow>
   bannedMfs s (RemoteAddr_IP_String c) = Some bannedAt \<Longrightarrow>
   BanLimit \<le> Seconds (Sub (Now e) bannedAt) \<Longrightarrow>
   server_step safeMode e s msg =
     Inr (\<lparr>clients = AList.update (RemoteAddr_String c)
                        \<lparr>Client.Conn = c, LastMessage = Now_again e, StrikeCount = 0\<rparr> (clients s),
           bannedMfs = (bannedMfs s)(RemoteAddr_IP_String c := None)\<rparr>,
          [Log (''Client '' @ sensitive safeMode (RemoteAddr_IP_String c) @ '' connected'' @ nl)])"
  by (simp add: server_step_def Let_def MessageType_defs)

lemma server_step_connected_banned:
  "Type msg = ClientConnected \<Longrightarrow> Message.Conn msg = Some c \<Longrightarrow>
   bannedMfs s (RemoteAddr_IP_String c) = Some bannedAt \<Longrightarrow>
   \<not> BanLimit \<le> Seconds (Sub (Now e) bannedAt) \<Longrightarrow>
   server_step safeMode e s msg =
     Inr (s, [Write c (BanNotice (BanLimit - Seconds (Sub (Now e) bannedAt))), Close c])"
  by (simp add: server_step_def Let_def MessageType_defs)

lemma server_step_disconnected:
  "Type msg = ClientDisconnected \<Longrightarrow> Message.Conn msg = Some c \<Longrightarrow>
   server_step safeMode e s msg =
     Inr (s\<lparr>clients := AList.delete (RemoteAddr_String c) (clients s)\<rparr>,
          [Log (''Client '' @ sensitive safeMode (RemoteAddr_String c) @ '' disconnected'' @ nl)])"
  by (simp add: server_step_def Let_def MessageType_defs)

lemma server_step_unregistered:
  "Type msg = NewMessage \<Longrightarrow> Message.Conn msg = Some c \<Longrightarrow>
   map_of (clients s) (RemoteAddr_String c) = None \<Longrightarrow>
   server_step safeMode e s msg = Inr (s, [Close c])"
  by (simp add: server_step_def Let_def MessageType_defs)

lemma server_step_accepted:
  "Type msg = NewMessage \<Longrightarrow> Message.Conn msg = Some c \<Longrightarrow>
   map_of (clients s) (RemoteAddr_String c) = Some author \<Longrightarrow>
   MessageRate \<le> Seconds (Sub (Now e) (LastMessage author)) \<Longrightarrow>
   ValidString (Text msg) \<Longrightarrow>
   server_step safeMode e s msg =
     Inr (s\<lparr>clients := AList.update (RemoteAddr_String c)
                            (author\<lparr>StrikeCount := 0, LastMessage := Now e\<rparr>) (clients s)\<rparr>,
          Log (''Client '' @ sensitive safeMode (RemoteAddr_String c) @ '' sent: '' @ Text msg)
          # broadcast safeMode (WriteErr e) (RemoteAddr_String c) (Text msg)
              (AList.update (RemoteAddr_String c)
                 (author\<lparr>StrikeCount := 0, LastMessage := Now e\<rparr>) (clients s)))"
  by (simp add: server_step_def MessageType_defs Let_def)

lemma server_step_strike:
  "Type msg = NewMessage \<Longrightarrow> Message.Conn msg = Some c \<Longrightarrow>
   map_of (clients s) (RemoteAddr_String c) = Some author \<Longrightarrow>
   \<not> MessageRate \<le> Seconds (Sub (Now e) (LastMessage author)) \<or> \<not> ValidString (Text msg) \<Longrightarrow>
   server_step safeMode e s msg =
     (if StrikeLimit < int_incr (StrikeCount author) then
        Inr (\<lparr>clients = AList.update (RemoteAddr_String c)
                           (author\<lparr>StrikeCount := int_incr (StrikeCount author)\<rparr>) (clients s),
              bannedMfs = (bannedMfs s)(RemoteAddr_IP_String c \<mapsto> Now e)\<rparr>,
             [Close (Client.Conn author)])
      else
        Inr (s\<lparr>clients := AList.update (RemoteAddr_String c)
                               (author\<lparr>StrikeCount := int_incr (StrikeCount author)\<rparr>) (clients s)\<rparr>,
             []))"
  by (cases "MessageRate \<le> Seconds (Sub (Now e) (LastMessage author))")
     (simp_all add: server_step_def MessageType_defs Let_def)


lemma legacy_server_step_nil:
  "Type msg = ClientConnected \<or> Type msg = ClientDisconnected \<or> Type msg = NewMessage \<Longrightarrow>
   Message.Conn msg = None \<Longrightarrow> legacy_server_step safeMode e s msg = Inl NilDereference"
  by (auto simp add: legacy_server_step_def Let_def MessageType_defs)

lemma legacy_server_step_other:
  "Type msg \<noteq> ClientConnected \<Longrightarrow> Type msg \<noteq> ClientDisconnected \<Longrightarrow> Type msg \<noteq> NewMessage \<Longrightarrow>
   legacy_server_step safeMode e s msg = Inr (s, [])"
  by (simp add: legacy_server_step_def Let_def MessageType_defs)

lemma legacy_server_step_connected_unbanned:
  "Type msg = ClientConnected \<Longrightarrow> Message.Conn msg = Some c \<Longrightarrow>
   LegacyMessage.Name msg = Some n \<Longrightarrow>
   bannedMfs s (RemoteAddr_IP_String c) = None \<Longrightarrow>
   legacy_server_step safeMode e s msg =
     Inr (\<lparr>clients = AList.update (RemoteAddr_String c)
                        \<lparr>Client.Conn = c, LastMessage = Now_again e, StrikeCount = 0,
                         LegacyClient.Name = Some n\<rparr> (clients s),
           bannedMfs = bannedMfs s\<rparr>,
          [Log (n @ '' connected: '' @ sensitive safeMode (RemoteAddr_IP_String c) @ nl)])"
  by (simp add: legacy_server_step_def Let_def MessageType_defs)

lemma legacy_server_step_connected_expired:
  "Type msg = ClientConnected \<Longrightarrow> Message.Conn msg = Some c \<Longrightarrow>
   LegacyMessage.Name msg = Some n \<Longrightarrow>
   bannedMfs s (RemoteAddr_IP_String c) = Some bannedAt \<Longrightarrow>
   BanLimit \<le> Seconds (Sub (Now e) bannedAt) \<Longrightarrow>
   legacy_server_step safeMode e s msg =
     Inr (\<lparr>clients = AList.update (RemoteAddr_String c)
                        \<lparr>Client.Conn = c, LastMessage = Now_again e, StrikeCount = 0,
                         LegacyClient.Name = Some n\<rparr> (clients s),
           bannedMfs = (bannedMfs s)(RemoteAddr_IP_String c := None)\<rparr>,
          [Log (n @ '' connected: '' @ sensitive safeMode (RemoteAddr_IP_String c) @ nl)])"
  by (simp add: legacy_server_step_def Let_def MessageType_defs)

lemma legacy_server_step_connected_banned:
  "Type msg = ClientConnected \<Longrightarrow> Message.Conn msg = Some c \<Longrightarrow>
   bannedMfs s (RemoteAddr_IP_String c) = Some bannedAt \<Longrightarrow>
   \<not> BanLimit \<le> Seconds (Sub (Now e) bannedAt) \<Longrightarrow>
   legacy_server_step safeMode e s msg =
     Inr (s, [Write c (BanNotice (BanLimit - Seconds (Sub (Now e) bannedAt))), Close c])"
  by (simp add: legacy_server_step_def Let_def MessageType_defs)

lemma legacy_server_step_disconnected:
  "Type msg = ClientDisconnected \<Longrightarrow> Message.Conn msg = Some c \<Longrightarrow>
   legacy_server_step safeMode e s msg =
     Inr (s\<lparr>clients := AList.delete (RemoteAddr_String c) (clients s)\<rparr>,
          [Log (''Client '' @ sensitive safeMode (RemoteAddr_String c) @ '' disconnected'' @ nl)])"
  by (simp add: legacy_server_step_def Let_def MessageType_defs)

lemma legacy_server_step_unregistered:
  "Type msg = NewMessage \<Longrightarrow> Message.Conn msg = Some c \<Longrightarrow>
   map_of (clients s) (RemoteAddr_String c) = None \<Longrightarrow>
   legacy_server_step safeMode e s msg = Inr (s, [Close c])"
  by (simp add: legacy_server_step_def Let_def MessageType_defs)

lemma legacy_server_step_accepted:
  "Type msg = NewMessage \<Longrightarrow> Message.Conn msg = Some c \<Longrightarrow>
   map_of (clients s) (RemoteAddr_String c) = Some author \<Longrightarrow>
   MessageRate \<le> Seconds (Sub (Now e) (LastMessage author)) \<Longrightarrow>
   ValidString (Text msg) \<Longrightarrow>
   LegacyMessage.Name msg = Some n \<Longrightarrow>
   legacy_server_step safeMode e s msg =
     Inr (s\<lparr>clients := AList.update (RemoteAddr_String c)
                            (author\<lparr>StrikeCount := 0, LastMessage := Now e\<rparr>) (clients s)\<rparr>,
          Log (n @ '' sent: '' @ Text msg)
          # broadcast safeMode (WriteErr e) (RemoteAddr_String c) (n @ '': '' @ Text msg)
              (AList.update (RemoteAddr_String c)
                 (author\<lparr>StrikeCount := 0, LastMessage := Now e\<rparr>) (clients s)))"
  by (simp add: legacy_server_step_def MessageType_defs Let_def)

lemma legacy_server_step_strike:
  "Type msg = NewMessage \<Longrightarrow> Message.Conn msg = Some c \<Longrightarrow>
   map_of (clients s) (RemoteAddr_String c) = Some author \<Longrightarrow>
   \<not> MessageRate \<le> Seconds (Sub (Now e) (LastMessage author)) \<or> \<not> ValidString (Text msg) \<Longrightarrow>
   legacy_server_step safeMode e s msg =
     (if StrikeLimit < int_incr (StrikeCount author) then
        Inr (\<lparr>clients = AList.update (RemoteAddr_String c)
                           (author\<lparr>StrikeCount := int_incr (StrikeCount author)\<rparr>) (clients s),
              bannedMfs = (bannedMfs s)(RemoteAddr_IP_String c \<mapsto> Now e)\<rparr>,
             [Close (Client.Conn author)])
      else
        Inr (s\<lparr>clients := AList.update (RemoteAddr_String c)
                               (author\<lparr>StrikeCount := int_incr (StrikeCount author)\<rparr>) (clients s)\<rparr>,
             []))"
  by (cases "MessageRate \<le> Seconds (Sub (Now e) (LastMessage author))")
     (simp_all add: legacy_server_step_def MessageType_defs Let_def)


lemma legacy_server_step_connected_unnamed:
  "Type msg = ClientConnected \<Longrightarrow> Message.Conn msg = Some c \<Longrightarrow>
   LegacyMessage.Name msg = None \<Longrightarrow>
   bannedMfs s (RemoteAddr_IP_String c) = None \<Longrightarrow>
   legacy_server_step safeMode e s msg = Inl NilDereference"
  "Type msg = ClientConnected \<Longrightarrow> Message.Conn msg = Some c \<Longrightarrow>
   LegacyMessage.Name msg = None \<Longrightarrow>
   bannedMfs s (RemoteAddr_IP_String c) = Some bannedAt \<Longrightarrow>
   BanLimit \<le> Seconds (Sub (Now e) bannedAt) \<Longrightarrow>
   legacy_server_step safeMode e s msg = Inl NilDereference"
  by (simp_all add: legacy_server_step_def Let_def MessageType_defs)

lemma legacy_server_step_accepted_unnamed:
  "Type msg = NewMessage \<Longrightarrow> Message.Conn msg = Some c \<Longrightarrow>
   map_of (clients s) (RemoteAddr_String c) = Some author \<Longrightarrow>
   MessageRate \<le> Seconds (Sub (Now e) (LastMessage author)) \<Longrightarrow>
   ValidString (Text msg) \<Longrightarrow>
   LegacyMessage.Name msg = None \<Longrightarrow>
   legacy_server_step safeMode e s msg = Inl NilDereference"
  by (simp add: legacy_server_step_def Let_def MessageType_defs)

subsection \<open>Case analysis of a pass that does not panic\<close>

lemma server_step_Inr_cases [consumes 1, case_names unchanged admitted disconnected accepted strike ban]:
  assumes step: "server_step safeMode e s msg = Inr (s', out)"
  obtains
    (unchanged) "s' = s"
  | (admitted) c bans where
      "Type msg = ClientConnected" "Message.Conn msg = Some c"
      "bannedMfs s (RemoteAddr_IP_String c) = None \<and> bans = bannedMfs s
       \<or> (\<exists>bannedAt. bannedMfs s (RemoteAddr_IP_String c) = Some bannedAt
             \<and> BanLimit \<le> Seconds (Sub (Now e) bannedAt)
             \<and> bans = (bannedMfs s)(RemoteAddr_IP_String c := None))"
      "s' = \<lparr>clients = AList.update (RemoteAddr_String c)
                          \<lparr>Client.Conn = c, LastMessage = Now_again e, StrikeCount = 0\<rparr> (clients s),
             bannedMfs = bans\<rparr>"
  | (disconnected) c where
      "Type msg = ClientDisconnected" "Message.Conn msg = Some c"
      "s' = s\<lparr>clients := AList.delete (RemoteAddr_String c) (clients s)\<rparr>"
  | (accepted) c author where
      "Type msg = NewMessage" "Message.Conn msg = Some c"
      "map_of (clients s) (RemoteAddr_String c) = Some author"
      "MessageRate \<le> Seconds (Sub (Now e) (LastMessage author))" "ValidString (Text msg)"
      "s' = s\<lparr>clients := AList.update (RemoteAddr_String c)
                              (author\<lparr>StrikeCount := 0, LastMessage := Now e\<rparr>) (clients s)\<rparr>"
  | (strike) c author where
      "Type msg = NewMessage" "Message.Conn msg = Some c"
      "map_of (clients s) (RemoteAddr_String c) = Some author"
      "\<not> MessageRate \<le> Seconds (Sub (Now e) (LastMessage author)) \<or> \<not> ValidString (Text msg)"
      "\<not> StrikeLimit < int_incr (StrikeCount author)"
      "s' = s\<lparr>clients := AList.update (RemoteAddr_String c)
                              (author\<lparr>StrikeCount := int_incr (StrikeCount author)\<rparr>) (clients s)\<rparr>"
      "out = []"
  | (ban) c author where
      "Type msg = NewMessage" "Message.Conn msg = Some c"
      "map_of (clients s) (RemoteAddr_String c) = Some author"
      "\<not> MessageRate \<le> Seconds (Sub (Now e) (LastMessage author)) \<or> \<not> ValidString (Text msg)"
      "StrikeLimit < int_incr (StrikeCount author)"
      "s' = \<lparr>clients = AList.update (RemoteAddr_String c)
                          (author\<lparr>StrikeCount := int_incr (StrikeCount author)\<rparr>) (clients s),
             bannedMfs = (bannedMfs s)(RemoteAddr_IP_String c \<mapsto> Now e)\<rparr>"
      "out = [Close (Client.Conn author)]"
proof -
  consider (other) "Type msg \<noteq> ClientConnected" "Type msg \<noteq> ClientDisconnected" "Type msg \<noteq> NewMessage"
    | (nil) "Type msg = ClientConnected \<or> Type msg = ClientDisconnected \<or> Type msg = NewMessage"
            "Message.Conn msg = None"
    | (conn) c where "Type msg = ClientConnected" "Message.Conn msg = Some c"
    | (disc) c where "Type msg = ClientDisconnected" "Message.Conn msg = Some c"
    | (new) c where "Type msg = NewMessage" "Message.Conn msg = Some c"
    by (cases "Message.Conn msg") auto
  then show thesis
  proof cases
    case other
    with step unchanged show thesis by (simp add: server_step_other)
  next
    case nil
    with step show thesis by (simp add: server_step_nil)
  next
    case conn
    show thesis
    proof (cases "bannedMfs s (RemoteAddr_IP_String c)")
      case None
      with conn step admitted [of c "bannedMfs s"] show thesis
        by (simp add: server_step_connected_unbanned)
    next
      case (Some bannedAt)
      show thesis
      proof (cases "BanLimit \<le> Seconds (Sub (Now e) bannedAt)")
        case True
        with conn Some step admitted [of c "(bannedMfs s)(RemoteAddr_IP_String c := None)"]
        show thesis by (simp add: server_step_connected_expired)
      next
        case False
        with conn Some step unchanged show thesis
          by (simp add: server_step_connected_banned)
      qed
    qed
  next
    case disc
    with step disconnected [of c] show thesis by (simp add: server_step_disconnected)
  next
    case new
    show thesis
    proof (cases "map_of (clients s) (RemoteAddr_String c)")
      case None
      with new step unchanged show thesis by (simp add: server_step_unregistered)
    next
      case (Some author)
      show thesis
      proof (cases "MessageRate \<le> Seconds (Sub (Now e) (LastMessage author)) \<and> ValidString (Text msg)")
        case True
        with new Some step accepted [of c author] show thesis
          by (simp add: server_step_accepted)
      next
        case False
        then have bad: "\<not> MessageRate \<le> Seconds (Sub (Now e) (LastMessage author)) \<or> \<not> ValidString (Text msg)"
          by simp
        show thesis
        proof (cases "StrikeLimit < int_incr (StrikeCount author)")
          case True
          with new Some bad step ban [of c author] show thesis
            by (simp add: server_step_strike)
        next
          case False
          with new Some bad step strike [of c author] show thesis
            by (simp add: server_step_strike)
        qed
      qed
    qed
  qed
qed

lemma registry_ok_modify:
  assumes "registry_ok s" and "map_of (clients s) k = Some v" and "Client.Conn v' = Client.Conn v"
  shows "registry_ok (s\<lparr>clients := AList.update k v' (clients s)\<rparr>)"
    and "registry_ok \<lparr>clients = AList.update k v' (clients s), bannedMfs = b\<rparr>"
proof -
  from assms have "RemoteAddr_String (Client.Conn v') = k"
    by (simp add: registry_ok_session)
  with assms(1) show "registry_ok (s\<lparr>clients := AList.update k v' (clients s)\<rparr>)"
    and "registry_ok \<lparr>clients = AList.update k v' (clients s), bannedMfs = b\<rparr>"
    by (rule registry_ok_update)+
qed

lemma server_step_registry_ok:
  assumes "server_step safeMode e s msg = Inr (s', out)" and "registry_ok s"
  shows "registry_ok s'"
  using assms
  by (cases rule: server_step_Inr_cases)
     (simp_all add: registry_ok_update registry_ok_delete registry_ok_modify)

lemma legacy_server_step_Inr_cases [consumes 1, case_names unchanged admitted disconnected accepted strike ban]:
  assumes step: "legacy_server_step safeMode e s msg = Inr (s', out)"
  obtains
    (unchanged) "s' = s"
  | (admitted) c bans n where
      "Type msg = ClientConnected" "Message.Conn msg = Some c" "LegacyMessage.Name msg = Some n"
      "bannedMfs s (RemoteAddr_IP_String c) = None \<and> bans = bannedMfs s
       \<or> (\<exists>bannedAt. bannedMfs s (RemoteAddr_IP_String c) = Some bannedAt
             \<and> BanLimit \<le> Seconds (Sub (Now e) bannedAt)
             \<and> bans = (bannedMfs s)(RemoteAddr_IP_String c := None))"
      "s' = \<lparr>clients = AList.update (RemoteAddr_String c)
                          \<lparr>Client.Conn = c, LastMessage = Now_again e, StrikeCount = 0,
                           LegacyClient.Name = Some n\<rparr> (clients s),
             bannedMfs = bans\<rparr>"
  | (disconnected) c where
      "Type msg = ClientDisconnected" "Message.Conn msg = Some c"
      "s' = s\<lparr>clients := AList.delete (RemoteAddr_String c) (clients s)\<rparr>"
  | (accepted) c author n where
      "Type msg = NewMessage" "Message.Conn msg = Some c" "LegacyMessage.Name msg = Some n"
      "map_of (clients s) (RemoteAddr_String c) = Some author"
      "MessageRate \<le> Seconds (Sub (Now e) (LastMessage author))" "ValidString (Text msg)"
      "s' = s\<lparr>clients := AList.update (RemoteAddr_String c)
                              (author\<lparr>StrikeCount := 0, LastMessage := Now e\<rparr>) (clients s)\<rparr>"
  | (strike) c author where
      "Type msg = NewMessage" "Message.Conn msg = Some c"
      "map_of (clients s) (RemoteAddr_String c) = Some author"
      "\<not> MessageRate \<le> Seconds (Sub (Now e) (LastMessage author)) \<or> \<not> ValidString (Text msg)"
      "\<not> StrikeLimit < int_incr (StrikeCount author)"
      "s' = s\<lparr>clients := AList.update (RemoteAddr_String c)
                              (author\<lparr>StrikeCount := int_incr (StrikeCount author)\<rparr>) (clients s)\<rparr>"
      "out = []"
  | (ban) c author where
      "Type msg = NewMessage" "Message.Conn msg = Some c"
      "map_of (clients s) (RemoteAddr_String c) = Some author"
      "\<not> MessageRate \<le> Seconds (Sub (Now e) (LastMessage author)) \<or> \<not> ValidString (Text msg)"
      "StrikeLimit < int_incr (StrikeCount author)"
      "s' = \<lparr>clients = AList.update (RemoteAddr_String c)
                          (author\<lparr>StrikeCount := int_incr (StrikeCount author)\<rparr>) (clients s),
             bannedMfs = (bannedMfs s)(RemoteAddr_IP_String c \<mapsto> Now e)\<rparr>"
      "out = [Close (Client.Conn author)]"
proof -
  consider (other) "Type msg \<noteq> ClientConnected" "Type msg \<noteq> ClientDisconnected" "Type msg \<noteq> NewMessage"
    | (nil) "Type msg = ClientConnected \<or> Type msg = ClientDisconnected \<or> Type msg = NewMessage"
            "Message.Conn msg = None"
    | (conn) c where "Type msg = ClientConnected" "Message.Conn msg = Some c"
    | (disc) c where "Type msg = ClientDisconnected" "Message.Conn msg = Some c"
    | (new) c where "Type msg = NewMessage" "Message.Conn msg = Some c"
    by (cases "Message.Conn msg") auto
  then show thesis
  proof cases
    case other
    with step unchanged show thesis by (simp add: legacy_server_step_other)
  next
    case nil
    with step show thesis by (simp add: legacy_server_step_nil)
  next
    case conn
    show thesis
    proof (cases "bannedMfs s (RemoteAddr_IP_String c)")
      case None
      with conn step admitted [of c _ "bannedMfs s"] show thesis
        by (cases "LegacyMessage.Name msg")
           (simp_all add: legacy_server_step_connected_unbanned legacy_server_step_connected_unnamed)
    next
      case (Some bannedAt)
      show thesis
      proof (cases "BanLimit \<le> Seconds (Sub (Now e) bannedAt)")
        case True
        with conn Some step admitted [of c _ "(bannedMfs s)(RemoteAddr_IP_String c := None)"]
        show thesis
          by (cases "LegacyMessage.Name msg")
             (simp_all add: legacy_server_step_connected_expired legacy_server_step_connected_unnamed)
      next
        case False
        with conn Some step unchanged show thesis
          by (simp add: legacy_server_step_connected_banned)
      qed
    qed
  next
    case disc
    with step disconnected [of c] show thesis by (simp add: legacy_server_step_disconnected)
  next
    case new
    show thesis
    proof (cases "map_of (clients s) (RemoteAddr_String c)")
      case None
      with new step unchanged show thesis by (simp add: legacy_server_step_unregistered)
    next
      case (Some author)
      show thesis
      proof (cases "MessageRate \<le> Seconds (Sub (Now e) (LastMessage author)) \<and> ValidString (Text msg)")
        case True
        with new Some step accepted [of c _ author] show thesis
          by (cases "LegacyMessage.Name msg")
             (simp_all add: legacy_server_step_accepted legacy_server_step_accepted_unnamed)
      next
        case False
        then have bad: "\<not> MessageRate \<le> Seconds (Sub (Now e) (LastMessage author)) \<or> \<not> ValidString (Text msg)"
          by simp
        show thesis
        proof (cases "StrikeLimit < int_incr (StrikeCount author)")
          case True
          with new Some bad step ban [of c author] show thesis
            by (simp add: legacy_server_step_strike)
        next
          case False
          with new Some bad step strike [of c author] show thesis
            by (simp add: legacy_server_step_strike)
        qed
      qed
    qed
  qed
qed

lemma legacy_server_step_registry_ok:
  assumes "legacy_server_step safeMode e s msg = Inr (s', out)" and "registry_ok s"
  shows "registry_ok s'"
  using assms
  by (cases rule: legacy_server_step_Inr_cases)
     (simp_all add: registry_ok_update registry_ok_delete registry_ok_modify)

subsection \<open>Invariants of a run\<close>

lemma registry_ok_init: "registry_ok hub_init"
  by (simp add: registry_ok_def hub_init_def)

lemma strikes_within_init: "strikes_within 0 hub_init"
  by (simp add: strikes_within_def hub_init_def)

lemma list_all_mono_strikes:
  "list_all (\<lambda>(k, cl). 0 \<le> StrikeCount cl \<and> StrikeCount cl \<le> n) xs \<Longrightarrow>
   list_all (\<lambda>(k, cl). 0 \<le> StrikeCount cl \<and> StrikeCount cl \<le> n + 1) xs"
  by (induction xs) auto

lemma strikes_within_mono: "strikes_within n s \<Longrightarrow> strikes_within (n + 1) s"
  by (simp add: strikes_within_def list_all_mono_strikes)

lemma list_all_update:
  "list_all (\<lambda>(k, cl). 0 \<le> StrikeCount cl \<and> StrikeCount cl \<le> n) xs \<Longrightarrow>
   0 \<le> StrikeCount v \<and> StrikeCount v \<le> n \<Longrightarrow>
   list_all (\<lambda>(k, cl). 0 \<le> StrikeCount cl \<and> StrikeCount cl \<le> n) (AList.update a v xs)"
  by (induction xs) auto

lemma strikes_within_session:
  "strikes_within n s \<Longrightarrow> map_of (clients s) k = Some v \<Longrightarrow>
   0 \<le> StrikeCount v \<and> StrikeCount v \<le> n"
  by (auto simp add: strikes_within_def list_all_iff dest: map_of_SomeD)

lemma server_step_strikes_within:
  assumes "server_step safeMode e s msg = Inr (s', out)" and "strikes_within n s"
    and "0 \<le> n" and "n < 9223372036854775807"
  shows "strikes_within (n + 1) s'"
  using assms(1)
proof (cases rule: server_step_Inr_cases)
  case unchanged
  with assms(2) show ?thesis by (simp add: strikes_within_mono)
next
  case (admitted c bans)
  with assms(2,3) show ?thesis
    by (simp add: strikes_within_def list_all_update list_all_mono_strikes)
next
  case (disconnected c)
  with assms(2) show ?thesis
    by (simp add: strikes_within_def delete_keyed list_all_mono_strikes)
next
  case (accepted c author)
  with assms(2,3) show ?thesis
    by (simp add: strikes_within_def list_all_update list_all_mono_strikes)
next
  case (strike c author)
  from assms(2) strike(3) have "0 \<le> StrikeCount author \<and> StrikeCount author \<le> n"
    by (rule strikes_within_session)
  with assms(4) have "0 \<le> int_incr (StrikeCount author) \<and> int_incr (StrikeCount author) \<le> n + 1"
    by (simp add: int_incr_def)
  with strike(6) assms(2) show ?thesis
    by (simp add: strikes_within_def list_all_update list_all_mono_strikes)
next
  case (ban c author)
  from assms(2) ban(3) have "0 \<le> StrikeCount author \<and> StrikeCount author \<le> n"
    by (rule strikes_within_session)
  with assms(4) have "0 \<le> int_incr (StrikeCount author) \<and> int_incr (StrikeCount author) \<le> n + 1"
    by (simp add: int_incr_def)
  with ban(6) assms(2) show ?thesis
    by (simp add: strikes_within_def list_all_update list_all_mono_strikes)
qed

lemma server_strikes_within:
  assumes "fst (server safeMode s evs) = Inr s'" and "strikes_within n s" and "0 \<le> n"
    and "n + int (length evs) \<le> 9223372036854775807"
  shows "strikes_within (n + int (length evs)) s'"
  using assms
proof (induction evs arbitrary: s n)
  case Nil
  then show ?case by simp
next
  case (Cons ev evs)
  obtain e msg where ev: "ev = (e, msg)"
    by (cases ev)
  from Cons.prems(1) ev obtain s1 out where step: "server_step safeMode e s msg = Inr (s1, out)"
    and rest: "fst (server safeMode s1 evs) = Inr s'"
    by (auto split: sum.splits prod.splits)
  from Cons.prems(4) have small: "n < 9223372036854775807"
    by simp
  from step Cons.prems(2,3) small have "strikes_within (n + 1) s1"
    by (rule server_step_strikes_within)
  with rest Cons.prems(3,4) have "strikes_within (n + 1 + int (length evs)) s'"
    by (intro Cons.IH) simp_all
  moreover have "n + 1 + int (length evs) = n + int (length (ev # evs))"
    by simp
  ultimately show ?case by (simp only:)
qed

lemma server_registry_ok:
  assumes "fst (server safeMode s evs) = Inr s'" and "registry_ok s"
  shows "registry_ok s'"
  using assms
proof (induction evs arbitrary: s)
  case Nil
  then show ?case by simp
next
  case (Cons ev evs)
  obtain e msg where ev: "ev = (e, msg)"
    by (cases ev)
  from Cons.prems(1) ev obtain s1 out where step: "server_step safeMode e s msg = Inr (s1, out)"
    and rest: "fst (server safeMode s1 evs) = Inr s'"
    by (auto split: sum.splits prod.splits)
  from step Cons.prems(2) have "registry_ok s1"
    by (rule server_step_registry_ok)
  with rest show ?case by (rule Cons.IH)
qed

lemma legacy_server_step_strikes_within:
  assumes "legacy_server_step safeMode e s msg = Inr (s', out)" and "strikes_within n s"
    and "0 \<le> n" and "n < 9223372036854775807"
  shows "strikes_within (n + 1) s'"
  using assms(1)
proof (cases rule: legacy_server_step_Inr_cases)
  case unchanged
  with assms(2) show ?thesis by (simp add: strikes_within_mono)
next
  case (admitted c n bans)
  with assms(2,3) show ?thesis
    by (simp add: strikes_within_def list_all_update list_all_mono_strikes)
next
  case (disconnected c)
  with assms(2) show ?thesis
    by (simp add: strikes_within_def delete_keyed list_all_mono_strikes)
next
  case (accepted c n author)
  with assms(2,3) show ?thesis
    by (simp add: strikes_within_def list_all_update list_all_mono_strikes)
next
  case (strike c author)
  from assms(2) strike(3) have "0 \<le> StrikeCount author \<and> StrikeCount author \<le> n"
    by (rule strikes_within_session)
  with assms(4) have "0 \<le> int_incr (StrikeCount author) \<and> int_incr (StrikeCount author) \<le> n + 1"
    by (simp add: int_incr_def)
  with strike(6) assms(2) show ?thesis
    by (simp add: strikes_within_def list_all_update list_all_mono_strikes)
next
  case (ban c author)
  from assms(2) ban(3) have "0 \<le> StrikeCount author \<and> StrikeCount author \<le> n"
    by (rule strikes_within_session)
  with assms(4) have "0 \<le> int_incr (StrikeCount author) \<and> int_incr (StrikeCount author) \<le> n + 1"
    by (simp add: int_incr_def)
  with ban(6) assms(2) show ?thesis
    by (simp add: strikes_within_def list_all_update list_all_mono_strikes)
qed

lemma legacy_server_strikes_within:
  assumes "fst (legacy_server safeMode s evs) = Inr s'" and "strikes_within n s" and "0 \<le> n"
    and "n + int (length evs) \<le> 9223372036854775807"
  shows "strikes_within (n + int (length evs)) s'"
  using assms
proof (induction evs arbitrary: s n)
  case Nil
  then show ?case by simp
next
  case (Cons ev evs)
  obtain e msg where ev: "ev = (e, msg)"
    by (cases ev)
  from Cons.prems(1) ev obtain s1 out where step: "legacy_server_step safeMode e s msg = Inr (s1, out)"
    and rest: "fst (legacy_server safeMode s1 evs) = Inr s'"
    by (auto split: sum.splits prod.splits)
  from Cons.prems(4) have small: "n < 9223372036854775807"
    by simp
  from step Cons.prems(2,3) small have "strikes_within (n + 1) s1"
    by (rule legacy_server_step_strikes_within)
  with rest Cons.prems(3,4) have "strikes_within (n + 1 + int (length evs)) s'"
    by (intro Cons.IH) simp_all
  moreover have "n + 1 + int (length evs) = n + int (length (ev # evs))"
    by simp
  ultimately show ?case by (simp only:)
qed

lemma legacy_server_registry_ok:
  assumes "fst (legacy_server safeMode s evs) = Inr s'" and "registry_ok s"
  shows "registry_ok s'"
  using assms
proof (induction evs arbitrary: s)
  case Nil
  then show ?case by simp
next
  case (Cons ev evs)
  obtain e msg where ev: "ev = (e, msg)"
    by (cases ev)
  from Cons.prems(1) ev obtain s1 out where step: "legacy_server_step safeMode e s msg = Inr (s1, out)"
    and rest: "fst (legacy_server safeMode s1 evs) = Inr s'"
    by (auto split: sum.splits prod.splits)
  from step Cons.prems(2) have "registry_ok s1"
    by (rule legacy_server_step_registry_ok)
  with rest show ?case by (rule Cons.IH)
qed

subsection \<open>Expiry of a ban\<close>

lemma ban_expiry_time:
  "(BanLimit \<le> Seconds (Sub now T)) = (real_of_int T + BanLimit * 1000000000 \<le> real_of_int now)"
proof -
  have "real_of_int T + BanLimit * 1000000000 = real_of_int (T + 10000000000)"
    by (simp add: BanLimit_def)
  then show ?thesis
    by (simp only: BanLimit_elapsed of_int_le_iff)
qed

subsection \<open>Recipients of a broadcast\<close>

lemma broadcast_Write_iff:
  "Write d b \<in> set (broadcast safeMode werr a p xs) \<longleftrightarrow>
   b = Payload p \<and> RemoteAddr_String d \<noteq> a \<and> (\<exists>k cl. (k, cl) \<in> set xs \<and> Client.Conn cl = d)"
proof -
  have "Write d b \<in> set (broadcast safeMode werr a p xs) \<longleftrightarrow>
        Write d b \<in> set (filter is_Write (broadcast safeMode werr a p xs))"
    by simp
  also have "\<dots> \<longleftrightarrow> b = Payload p \<and> RemoteAddr_String d \<noteq> a
                \<and> (\<exists>k cl. (k, cl) \<in> set xs \<and> Client.Conn cl = d)"
    unfolding broadcast_writes by force
  finally show ?thesis .
qed

lemma update_filter_others:
  "filter (\<lambda>(k, cl). k \<noteq> a) (AList.update a v xs) = filter (\<lambda>(k, cl). k \<noteq> a) xs"
  by (induction xs) auto

lemma keyed_filter:
  "list_all (\<lambda>(k, cl). RemoteAddr_String (Client.Conn cl) = k) xs \<Longrightarrow>
   filter (\<lambda>(k, cl). RemoteAddr_String (Client.Conn cl) \<noteq> a) xs = filter (\<lambda>(k, cl). k \<noteq> a) xs"
  by (induction xs) auto

lemma update_same_keys:
  "map_of xs k = Some v \<Longrightarrow> map fst (AList.update k v' xs) = map fst xs"
  by (induction xs) (auto split: if_splits)

lemma broadcast_recipients:
  assumes "registry_ok s" and "map_of (clients s) a = Some author"
    and "Client.Conn author' = Client.Conn author"
  shows "filter is_Write (broadcast safeMode werr a p (AList.update a author' (clients s))) =
         map (\<lambda>(k, cl). Write (Client.Conn cl) (Payload p))
             (filter (\<lambda>(k, cl). k \<noteq> a) (clients s))"
proof -
  from assms have "registry_ok (s\<lparr>clients := AList.update a author' (clients s)\<rparr>)"
    by (rule registry_ok_modify)
  then have "list_all (\<lambda>(k, cl). RemoteAddr_String (Client.Conn cl) = k)
               (AList.update a author' (clients s))"
    by (simp add: registry_ok_def)
  then show ?thesis
    by (simp add: broadcast_writes keyed_filter update_filter_others)
qed

subsection \<open>The two settings of \<^verbatim>\<open>SafeMode\<close>\<close>

lemma broadcast_redacted:
  "map redact (broadcast safeMode werr a p xs) =
   concat (map (\<lambda>(k, cl).
                  if RemoteAddr_String (Client.Conn cl) \<noteq> a
                  then Write (Client.Conn cl) (Payload p)
                       # (case werr (Client.Conn cl) of None \<Rightarrow> [] | Some err \<Rightarrow> [Log []])
                  else []) xs)"
  by (induction xs) (auto split: option.splits)

lemma filter_redact: "filter (\<lambda>x. \<not> is_Log x) (map redact xs) = filter (\<lambda>x. \<not> is_Log x) xs"
proof (induction xs)
  case Nil
  show ?case by simp
next
  case (Cons x xs)
  then show ?case by (cases x) simp_all
qed

lemma redact_eq_filter:
  assumes "map redact xs = map redact ys"
  shows "filter (\<lambda>x. \<not> is_Log x) xs = filter (\<lambda>x. \<not> is_Log x) ys"
proof -
  have "filter (\<lambda>x. \<not> is_Log x) xs = filter (\<lambda>x. \<not> is_Log x) (map redact xs)"
    by (simp only: filter_redact)
  also have "\<dots> = filter (\<lambda>x. \<not> is_Log x) (map redact ys)"
    by (simp only: assms)
  also have "\<dots> = filter (\<lambda>x. \<not> is_Log x) ys"
    by (simp only: filter_redact)
  finally show ?thesis .
qed

lemma server_step_safe_mode:
  "map_sum id (map_prod id (map redact)) (server_step a e s msg) =
   map_sum id (map_prod id (map redact)) (server_step b e s msg)"
  by (simp add: server_step_def Let_def broadcast_redacted split: option.splits)

lemma legacy_server_step_safe_mode:
  "map_sum id (map_prod id (map redact)) (legacy_server_step a e s msg) =
   map_sum id (map_prod id (map redact)) (legacy_server_step b e s msg)"
  by (simp add: legacy_server_step_def Let_def broadcast_redacted split: option.splits)

lemma server_safe_mode:
  "map_prod id (map redact) (server a s evs) = map_prod id (map redact) (server b s evs)"
proof (induction evs arbitrary: s)
  case Nil
  show ?case by simp
next
  case (Cons ev evs)
  obtain e msg where ev: "ev = (e, msg)"
    by (cases ev)
  have same: "map_sum id (map_prod id (map redact)) (server_step a e s msg) =
              map_sum id (map_prod id (map redact)) (server_step b e s msg)"
    by (rule server_step_safe_mode)
  show ?case
  proof (cases "server_step a e s msg")
    case (Inl p)
    with same have "server_step b e s msg = Inl p"
      by (cases "server_step b e s msg") simp_all
    with Inl ev show ?thesis by simp
  next
    case (Inr r)
    obtain s' out where r: "r = (s', out)"
      by (cases r)
    from same Inr r obtain out' where b: "server_step b e s msg = Inr (s', out')"
      and out: "map redact out = map redact out'"
      by (cases "server_step b e s msg") auto
    from Cons.IH [of s'] have "fst (server a s' evs) = fst (server b s' evs)"
      and "map redact (snd (server a s' evs)) = map redact (snd (server b s' evs))"
      by (simp_all add: prod_eq_iff)
    with Inr r b out ev show ?thesis
      by (simp add: split_beta)
  qed
qed

lemma legacy_server_safe_mode:
  "map_prod id (map redact) (legacy_server a s evs) = map_prod id (map redact) (legacy_server b s evs)"
proof (induction evs arbitrary: s)
  case Nil
  show ?case by simp
next
  case (Cons ev evs)
  obtain e msg where ev: "ev = (e, msg)"
    by (cases ev)
  have same: "map_sum id (map_prod id (map redact)) (legacy_server_step a e s msg) =
              map_sum id (map_prod id (map redact)) (legacy_server_step b e s msg)"
    by (rule legacy_server_step_safe_mode)
  show ?case
  proof (cases "legacy_server_step a e s msg")
    case (Inl p)
    with same have "legacy_server_step b e s msg = Inl p"
      by (cases "legacy_server_step b e s msg") simp_all
    with Inl ev show ?thesis by simp
  next
    case (Inr r)
    obtain s' out where r: "r = (s', out)"
      by (cases r)
    from same Inr r obtain out' where b: "legacy_server_step b e s msg = Inr (s', out')"
      and out: "map redact out = map redact out'"
      by (cases "legacy_server_step b e s msg") auto
    from Cons.IH [of s'] have "fst (legacy_server a s' evs) = fst (legacy_server b s' evs)"
      and "map redact (snd (legacy_server a s' evs)) = map redact (snd (legacy_server b s' evs))"
      by (simp_all add: prod_eq_iff)
    with Inr r b out ev show ?thesis
      by (simp add: split_beta)
  qed
qed

section \<open>The claims\<close>

text \<open>
  C8. An Inbound event whose connection has no session under its remote address: the hub
  closes that connection and does nothing else; registry and ban list are as before.
\<close>

theorem inbound_unregistered_closes:
  "(Type msg = NewMessage \<and> Message.Conn msg = Some c
      \<and> map_of (clients s) (RemoteAddr_String c) = None
    \<longrightarrow> server_step safeMode e s msg = Inr (s, [Close c]))
   \<and> (Type lmsg = NewMessage \<and> Message.Conn lmsg = Some c
      \<and> map_of (clients ls) (RemoteAddr_String c) = None
    \<longrightarrow> legacy_server_step safeMode e ls lmsg = Inr (ls, [Close c]))"
  by (simp add: server_step_unregistered legacy_server_step_unregistered)

theorem inbound_unregistered_closes_witness:
  "map_of (clients lobby) (RemoteAddr_String dave) = None
   \<and> server_step SafeMode (at_time 5) lobby (msg_inbound dave ''hi'') = Inr (lobby, [Close dave])
   \<and> map_of (clients legacy_lobby) (RemoteAddr_String dave) = None
   \<and> legacy_server_step SafeMode (at_time 5) legacy_lobby (legacy_inbound dave ''dd'' ''hi'')
       = Inr (legacy_lobby, [Close dave])"
  using inbound_unregistered_closes
    [where msg = "msg_inbound dave ''hi''" and c = dave and s = lobby and safeMode = SafeMode
       and e = "at_time 5" and lmsg = "legacy_inbound dave ''dd'' ''hi''" and ls = legacy_lobby]
  by (simp add: example_defs MessageType_defs)

text \<open>
  C7. A Disconnected event removes the session stored under the connection's remote
  address and touches nothing else; when there is none the state is as before. It never
  panics on a connection that is there, and handling the same event again changes
  nothing more.
\<close>

theorem disconnected_idempotent:
  "(Type msg = ClientDisconnected \<and> Message.Conn msg = Some c \<longrightarrow>
      (\<exists>s' out. server_step safeMode e s msg = Inr (s', out)
         \<and> map_of (clients s') (RemoteAddr_String c) = None
         \<and> (\<forall>k. k \<noteq> RemoteAddr_String c \<longrightarrow> map_of (clients s') k = map_of (clients s) k)
         \<and> bannedMfs s' = bannedMfs s
         \<and> (map_of (clients s) (RemoteAddr_String c) = None \<longrightarrow> s' = s)
         \<and> (\<exists>out'. server_step safeMode e' s' msg = Inr (s', out'))
         \<and> fst (server safeMode s [(e, msg), (e', msg)]) = fst (server safeMode s [(e, msg)])))
   \<and> (Type lmsg = ClientDisconnected \<and> Message.Conn lmsg = Some c \<longrightarrow>
      (\<exists>s' out. legacy_server_step safeMode e ls lmsg = Inr (s', out)
         \<and> map_of (clients s') (RemoteAddr_String c) = None
         \<and> (\<forall>k. k \<noteq> RemoteAddr_String c \<longrightarrow> map_of (clients s') k = map_of (clients ls) k)
         \<and> bannedMfs s' = bannedMfs ls
         \<and> (map_of (clients ls) (RemoteAddr_String c) = None \<longrightarrow> s' = ls)
         \<and> (\<exists>out'. legacy_server_step safeMode e' s' lmsg = Inr (s', out'))
         \<and> fst (legacy_server safeMode ls [(e, lmsg), (e', lmsg)])
             = fst (legacy_server safeMode ls [(e, lmsg)])))"
  by (simp add: server_step_disconnected legacy_server_step_disconnected delete_conv'
        delete_idem map_of_eq_None_iff delete_notin_dom)

theorem disconnected_idempotent_witness:
  "fst (server SafeMode lobby [(at_time 5, msg_disconnected bob), (at_time 6, msg_disconnected bob)])
     = Inr (lobby\<lparr>clients := [(RemoteAddr_String alice, session alice 0 10),
                              (RemoteAddr_String carol, session carol 0 3)]\<rparr>)
   \<and> fst (legacy_server SafeMode legacy_lobby
            [(at_time 5, legacy_disconnected bob), (at_time 6, legacy_disconnected bob)])
     = Inr (legacy_lobby\<lparr>clients := [(RemoteAddr_String alice, legacy_session alice ''al'' 0 10),
                                     (RemoteAddr_String carol, legacy_session carol ''ca'' 0 3)]\<rparr>)"
  using disconnected_idempotent
    [where msg = "msg_disconnected bob" and c = bob and s = lobby and safeMode = SafeMode
       and e = "at_time 5" and e' = "at_time 6"
       and lmsg = "legacy_disconnected bob" and ls = legacy_lobby]
  by (simp add: example_defs MessageType_defs server_step_def legacy_server_step_def)

text \<open>
  C1. An Inbound event of a registered sender that comes before the minimum interval has
  passed: whatever the text, the sender's strike count goes up by one (Go's \<^verbatim>\<open>++\<close>, which
  is plus one below the greatest \<^verbatim>\<open>int\<close>; by \<open>server_strikes_within\<close> no run from the
  empty state gets there in fewer messages), \<^verbatim>\<open>LastMessage\<close> and every other session stay,
  nothing is written to any connection, and the strike rule is applied: above the limit
  the host is banned as of now and the session's connection closed, otherwise nothing
  else happens.
\<close>

theorem rate_violation_strikes:
  "(Type msg = NewMessage \<and> Message.Conn msg = Some c
      \<and> map_of (clients s) (RemoteAddr_String c) = Some author
      \<and> Seconds (Sub (Now e) (LastMessage author)) < MessageRate
    \<longrightarrow> (\<exists>s' out. server_step safeMode e s msg = Inr (s', out)
          \<and> map_of (clients s') (RemoteAddr_String c)
              = Some (author\<lparr>StrikeCount := int_incr (StrikeCount author)\<rparr>)
          \<and> (StrikeCount author \<noteq> 9223372036854775807
               \<longrightarrow> int_incr (StrikeCount author) = StrikeCount author + 1)
          \<and> (\<forall>k. k \<noteq> RemoteAddr_String c \<longrightarrow> map_of (clients s') k = map_of (clients s) k)
          \<and> filter is_Write out = []
          \<and> bannedMfs s' = (if StrikeLimit < int_incr (StrikeCount author)
                             then (bannedMfs s)(RemoteAddr_IP_String c \<mapsto> Now e)
                             else bannedMfs s)
          \<and> out = (if StrikeLimit < int_incr (StrikeCount author)
                    then [Close (Client.Conn author)] else [])))
   \<and> (Type lmsg = NewMessage \<and> Message.Conn lmsg = Some c
      \<and> map_of (clients ls) (RemoteAddr_String c) = Some lauthor
      \<and> Seconds (Sub (Now e) (LastMessage lauthor)) < MessageRate
    \<longrightarrow> (\<exists>s' out. legacy_server_step safeMode e ls lmsg = Inr (s', out)
          \<and> map_of (clients s') (RemoteAddr_String c)
              = Some (lauthor\<lparr>StrikeCount := int_incr (StrikeCount lauthor)\<rparr>)
          \<and> (StrikeCount lauthor \<noteq> 9223372036854775807
               \<longrightarrow> int_incr (StrikeCount lauthor) = StrikeCount lauthor + 1)
          \<and> (\<forall>k. k \<noteq> RemoteAddr_String c \<longrightarrow> map_of (clients s') k = map_of (clients ls) k)
          \<and> filter is_Write out = []
          \<and> bannedMfs s' = (if StrikeLimit < int_incr (StrikeCount lauthor)
                             then (bannedMfs ls)(RemoteAddr_IP_String c \<mapsto> Now e)
                             else bannedMfs ls)
          \<and> out = (if StrikeLimit < int_incr (StrikeCount lauthor)
                    then [Close (Client.Conn lauthor)] else [])))"
  by (simp add: server_step_strike legacy_server_step_strike update_conv' int_incr_succ)

theorem rate_violation_strikes_witness:
  "Seconds (Sub (Now (at_time 5)) (LastMessage (session carol 0 3))) < MessageRate
   \<and> ValidString ''hi''
   \<and> server_step SafeMode (at_time 5) lobby (msg_inbound carol ''hi'')
       = Inr (lobby\<lparr>clients := [(RemoteAddr_String alice, session alice 0 10),
                                 (RemoteAddr_String bob, session bob 0 0),
                                 (RemoteAddr_String carol, session carol 0 4)]\<rparr>, [])
   \<and> legacy_server_step SafeMode (at_time 5) legacy_lobby (legacy_inbound carol ''ca'' ''hi'')
       = Inr (legacy_lobby\<lparr>clients := [(RemoteAddr_String alice, legacy_session alice ''al'' 0 10),
                                        (RemoteAddr_String bob, legacy_session bob ''bo'' 0 0),
                                        (RemoteAddr_String carol, legacy_session carol ''ca'' 0 4)]\<rparr>,
              [])"
  using rate_violation_strikes
    [where msg = "msg_inbound carol ''hi''" and c = carol and s = lobby and safeMode = SafeMode
       and e = "at_time 5" and author = "session carol 0 3"
       and lmsg = "legacy_inbound carol ''ca'' ''hi''" and ls = legacy_lobby
       and lauthor = "legacy_session carol ''ca'' 0 3"]
  by (simp add: example_defs constant_defs server_step_def legacy_server_step_def Let_def)

text \<open>
  C4. An Inbound event that counts as a strike, because it comes too early or because its
  text is not valid: when the count after the increment is above the strike limit, this
  same pass records the sender's host in the ban list with the current time and closes
  the connection of the sender's session; when it is not, the ban list stays as it is
  and nothing is closed.
\<close>

theorem strike_limit_bans_at_once:
  "(Type msg = NewMessage \<and> Message.Conn msg = Some c
      \<and> map_of (clients s) (RemoteAddr_String c) = Some author
      \<and> (Seconds (Sub (Now e) (LastMessage author)) < MessageRate \<or> \<not> ValidString (Text msg))
    \<longrightarrow> (\<exists>s' out. server_step safeMode e s msg = Inr (s', out)
          \<and> map_of (clients s') (RemoteAddr_String c)
              = Some (author\<lparr>StrikeCount := int_incr (StrikeCount author)\<rparr>)
          \<and> (StrikeLimit < int_incr (StrikeCount author)
               \<longrightarrow> bannedMfs s' = (bannedMfs s)(RemoteAddr_IP_String c \<mapsto> Now e)
                   \<and> out = [Close (Client.Conn author)])
          \<and> (int_incr (StrikeCount author) \<le> StrikeLimit
               \<longrightarrow> bannedMfs s' = bannedMfs s \<and> out = [])))
   \<and> (Type lmsg = NewMessage \<and> Message.Conn lmsg = Some c
      \<and> map_of (clients ls) (RemoteAddr_String c) = Some lauthor
      \<and> (Seconds (Sub (Now e) (LastMessage lauthor)) < MessageRate \<or> \<not> ValidString (Text lmsg))
    \<longrightarrow> (\<exists>s' out. legacy_server_step safeMode e ls lmsg = Inr (s', out)
          \<and> map_of (clients s') (RemoteAddr_String c)
              = Some (lauthor\<lparr>StrikeCount := int_incr (StrikeCount lauthor)\<rparr>)
          \<and> (StrikeLimit < int_incr (StrikeCount lauthor)
               \<longrightarrow> bannedMfs s' = (bannedMfs ls)(RemoteAddr_IP_String c \<mapsto> Now e)
                   \<and> out = [Close (Client.Conn lauthor)])
          \<and> (int_incr (StrikeCount lauthor) \<le> StrikeLimit
               \<longrightarrow> bannedMfs s' = bannedMfs ls \<and> out = [])))"
proof (intro conjI impI)
  assume h: "Type msg = NewMessage \<and> Message.Conn msg = Some c
      \<and> map_of (clients s) (RemoteAddr_String c) = Some author
      \<and> (Seconds (Sub (Now e) (LastMessage author)) < MessageRate \<or> \<not> ValidString (Text msg))"
  then have "\<not> MessageRate \<le> Seconds (Sub (Now e) (LastMessage author)) \<or> \<not> ValidString (Text msg)"
    by auto
  with h show "\<exists>s' out. server_step safeMode e s msg = Inr (s', out)
          \<and> map_of (clients s') (RemoteAddr_String c)
              = Some (author\<lparr>StrikeCount := int_incr (StrikeCount author)\<rparr>)
          \<and> (StrikeLimit < int_incr (StrikeCount author)
               \<longrightarrow> bannedMfs s' = (bannedMfs s)(RemoteAddr_IP_String c \<mapsto> Now e)
                   \<and> out = [Close (Client.Conn author)])
          \<and> (int_incr (StrikeCount author) \<le> StrikeLimit
               \<longrightarrow> bannedMfs s' = bannedMfs s \<and> out = [])"
    by (simp add: server_step_strike update_conv')
next
  assume h: "Type lmsg = NewMessage \<and> Message.Conn lmsg = Some c
      \<and> map_of (clients ls) (RemoteAddr_String c) = Some lauthor
      \<and> (Seconds (Sub (Now e) (LastMessage lauthor)) < MessageRate \<or> \<not> ValidString (Text lmsg))"
  then have "\<not> MessageRate \<le> Seconds (Sub (Now e) (LastMessage lauthor)) \<or> \<not> ValidString (Text lmsg)"
    by auto
  with h show "\<exists>s' out. legacy_server_step safeMode e ls lmsg = Inr (s', out)
          \<and> map_of (clients s') (RemoteAddr_String c)
              = Some (lauthor\<lparr>StrikeCount := int_incr (StrikeCount lauthor)\<rparr>)
          \<and> (StrikeLimit < int_incr (StrikeCount lauthor)
               \<longrightarrow> bannedMfs s' = (bannedMfs ls)(RemoteAddr_IP_String c \<mapsto> Now e)
                   \<and> out = [Close (Client.Conn lauthor)])
          \<and> (int_incr (StrikeCount lauthor) \<le> StrikeLimit
               \<longrightarrow> bannedMfs s' = bannedMfs ls \<and> out = [])"
    by (simp add: legacy_server_step_strike update_conv')
qed

theorem strike_limit_bans_at_once_witness:
  "\<not> ValidString [CHR 0xFF]
   \<and> server_step SafeMode (at_time 2000000000) lobby (msg_inbound alice [CHR 0xFF])
       = Inr (\<lparr>clients = [(RemoteAddr_String alice, session alice 0 11),
                           (RemoteAddr_String bob, session bob 0 0),
                           (RemoteAddr_String carol, session carol 0 3)],
                bannedMfs = [RemoteAddr_IP_String dave \<mapsto> 0,
                             RemoteAddr_IP_String alice \<mapsto> 2000000000]\<rparr>,
              [Close alice])
   \<and> legacy_server_step SafeMode (at_time 2000000000) legacy_lobby
         (legacy_inbound alice ''al'' [CHR 0xFF])
       = Inr (\<lparr>clients = [(RemoteAddr_String alice, legacy_session alice ''al'' 0 11),
                           (RemoteAddr_String bob, legacy_session bob ''bo'' 0 0),
                           (RemoteAddr_String carol, legacy_session carol ''ca'' 0 3)],
                bannedMfs = [RemoteAddr_IP_String dave \<mapsto> 0,
                             RemoteAddr_IP_String alice \<mapsto> 2000000000]\<rparr>,
              [Close alice])"
  using strike_limit_bans_at_once
    [where msg = "msg_inbound alice [CHR 0xFF]" and c = alice and s = lobby
       and safeMode = SafeMode and e = "at_time 2000000000" and author = "session alice 0 10"
       and lmsg = "legacy_inbound alice ''al'' [CHR 0xFF]" and ls = legacy_lobby
       and lauthor = "legacy_session alice ''al'' 0 10"]
  by (simp add: example_defs constant_defs server_step_def legacy_server_step_def Let_def)

text \<open>
  C5. An Inbound event of a registered sender that comes after the minimum interval and
  whose text is valid is accepted: whatever the strike count was, it becomes 0,
  \<^verbatim>\<open>LastMessage\<close> becomes the current time, the ban list and the other sessions stay, and
  the payload (the text; in \<^verbatim>\<open>legacy.go\<close> the name, a colon, a blank and the text) is
  what is written, to the connection of every session with another address.
\<close>

theorem accepted_message_resets_strikes:
  "(Type msg = NewMessage \<and> Message.Conn msg = Some c
      \<and> map_of (clients s) (RemoteAddr_String c) = Some author
      \<and> MessageRate \<le> Seconds (Sub (Now e) (LastMessage author))
      \<and> ValidString (Text msg)
    \<longrightarrow> (\<exists>s' out. server_step safeMode e s msg = Inr (s', out)
          \<and> map_of (clients s') (RemoteAddr_String c)
              = Some (author\<lparr>StrikeCount := 0, LastMessage := Now e\<rparr>)
          \<and> (\<forall>k. k \<noteq> RemoteAddr_String c \<longrightarrow> map_of (clients s') k = map_of (clients s) k)
          \<and> bannedMfs s' = bannedMfs s
          \<and> (\<forall>k cl. (k, cl) \<in> set (clients s')
                 \<and> RemoteAddr_String (Client.Conn cl) \<noteq> RemoteAddr_String c
               \<longrightarrow> Write (Client.Conn cl) (Payload (Text msg)) \<in> set out)
          \<and> (\<forall>d b. Write d b \<in> set out \<longrightarrow> b = Payload (Text msg))))
   \<and> (Type lmsg = NewMessage \<and> Message.Conn lmsg = Some c
      \<and> LegacyMessage.Name lmsg = Some n
      \<and> map_of (clients ls) (RemoteAddr_String c) = Some lauthor
      \<and> MessageRate \<le> Seconds (Sub (Now e) (LastMessage lauthor))
      \<and> ValidString (Text lmsg)
    \<longrightarrow> (\<exists>s' out. legacy_server_step safeMode e ls lmsg = Inr (s', out)
          \<and> map_of (clients s') (RemoteAddr_String c)
              = Some (lauthor\<lparr>StrikeCount := 0, LastMessage := Now e\<rparr>)
          \<and> (\<forall>k. k \<noteq> RemoteAddr_String c \<longrightarrow> map_of (clients s') k = map_of (clients ls) k)
          \<and> bannedMfs s' = bannedMfs ls
          \<and> (\<forall>k cl. (k, cl) \<in> set (clients s')
                 \<and> RemoteAddr_String (Client.Conn cl) \<noteq> RemoteAddr_String c
               \<longrightarrow> Write (Client.Conn cl) (Payload (n @ '': '' @ Text lmsg)) \<in> set out)
          \<and> (\<forall>d b. Write d b \<in> set out \<longrightarrow> b = Payload (n @ '': '' @ Text lmsg))))"
  by (auto simp add: server_step_accepted legacy_server_step_accepted update_conv'
        broadcast_Write_iff)

theorem accepted_message_resets_strikes_witness:
  "MessageRate \<le> Seconds (Sub (Now (at_time 1000000000)) (LastMessage (session alice 0 10)))
   \<and> ValidString ''hi''
   \<and> server_step SafeMode (at_time 1000000000) lobby (msg_inbound alice ''hi'')
       = Inr (lobby\<lparr>clients := [(RemoteAddr_String alice, session alice 1000000000 0),
                                 (RemoteAddr_String bob, session bob 0 0),
                                 (RemoteAddr_String carol, session carol 0 3)]\<rparr>,
              [Log ''Client [REDACTED] sent: hi'',
               Write bob (Payload ''hi''), Write carol (Payload ''hi'')])
   \<and> legacy_server_step SafeMode (at_time 1000000000) legacy_lobby
         (legacy_inbound alice ''al'' ''hi'')
       = Inr (legacy_lobby
                \<lparr>clients := [(RemoteAddr_String alice, legacy_session alice ''al'' 1000000000 0),
                              (RemoteAddr_String bob, legacy_session bob ''bo'' 0 0),
                              (RemoteAddr_String carol, legacy_session carol ''ca'' 0 3)]\<rparr>,
              [Log ''al sent: hi'',
               Write bob (Payload ''al: hi''), Write carol (Payload ''al: hi'')])"
  using accepted_message_resets_strikes
    [where msg = "msg_inbound alice ''hi''" and c = alice and s = lobby
       and safeMode = SafeMode and e = "at_time 1000000000" and author = "session alice 0 10"
       and lmsg = "legacy_inbound alice ''al'' ''hi''" and ls = legacy_lobby
       and lauthor = "legacy_session alice ''al'' 0 10" and n = "''al''"]
  by (simp add: example_defs constant_defs server_step_def legacy_server_step_def Let_def
        sensitive_def)

text \<open>
  C6. The broadcast of an accepted message. Every write carries the payload and goes to a
  connection whose remote address is not the sender's, so never to the sender's own
  connection. In a well-formed registry the writes are one for each session registered
  under another address, in the order of the registry. Nothing is closed and no key
  leaves the registry. Whichever writes fail, the state after the pass is the same and
  so are the writes: a failure adds a line to the log and nothing else.
\<close>

theorem broadcast_reaches_all_others:
  "(Type msg = NewMessage \<and> Message.Conn msg = Some c
      \<and> map_of (clients s) (RemoteAddr_String c) = Some author
      \<and> MessageRate \<le> Seconds (Sub (Now e) (LastMessage author))
      \<and> ValidString (Text msg)
    \<longrightarrow> (\<exists>s' out. server_step safeMode e s msg = Inr (s', out)
          \<and> (\<forall>d b. Write d b \<in> set out
                 \<longrightarrow> b = Payload (Text msg) \<and> RemoteAddr_String d \<noteq> RemoteAddr_String c)
          \<and> (\<forall>b. Write c b \<notin> set out)
          \<and> (registry_ok s \<longrightarrow>
               filter is_Write out
                 = map (\<lambda>(k, cl). Write (Client.Conn cl) (Payload (Text msg)))
                       (filter (\<lambda>(k, cl). k \<noteq> RemoteAddr_String c) (clients s)))
          \<and> filter is_Close out = []
          \<and> map fst (clients s') = map fst (clients s)
          \<and> (\<forall>k. k \<noteq> RemoteAddr_String c \<longrightarrow> map_of (clients s') k = map_of (clients s) k)
          \<and> (\<forall>w. \<exists>out'. server_step safeMode (e\<lparr>WriteErr := w\<rparr>) s msg = Inr (s', out')
                 \<and> filter (\<lambda>x. \<not> is_Log x) out' = filter (\<lambda>x. \<not> is_Log x) out)))
   \<and> (Type lmsg = NewMessage \<and> Message.Conn lmsg = Some c
      \<and> LegacyMessage.Name lmsg = Some n
      \<and> map_of (clients ls) (RemoteAddr_String c) = Some lauthor
      \<and> MessageRate \<le> Seconds (Sub (Now e) (LastMessage lauthor))
      \<and> ValidString (Text lmsg)
    \<longrightarrow> (\<exists>s' out. legacy_server_step safeMode e ls lmsg = Inr (s', out)
          \<and> (\<forall>d b. Write d b \<in> set out
                 \<longrightarrow> b = Payload (n @ '': '' @ Text lmsg)
                     \<and> RemoteAddr_String d \<noteq> RemoteAddr_String c)
          \<and> (\<forall>b. Write c b \<notin> set out)
          \<and> (registry_ok ls \<longrightarrow>
               filter is_Write out
                 = map (\<lambda>(k, cl). Write (Client.Conn cl) (Payload (n @ '': '' @ Text lmsg)))
                       (filter (\<lambda>(k, cl). k \<noteq> RemoteAddr_String c) (clients ls)))
          \<and> filter is_Close out = []
          \<and> map fst (clients s') = map fst (clients ls)
          \<and> (\<forall>k. k \<noteq> RemoteAddr_String c \<longrightarrow> map_of (clients s') k = map_of (clients ls) k)
          \<and> (\<forall>w. \<exists>out'. legacy_server_step safeMode (e\<lparr>WriteErr := w\<rparr>) ls lmsg = Inr (s', out')
                 \<and> filter (\<lambda>x. \<not> is_Log x) out' = filter (\<lambda>x. \<not> is_Log x) out)))"
proof (intro conjI impI)
  assume "Type msg = NewMessage \<and> Message.Conn msg = Some c
      \<and> map_of (clients s) (RemoteAddr_String c) = Some author
      \<and> MessageRate \<le> Seconds (Sub (Now e) (LastMessage author))
      \<and> ValidString (Text msg)"
  then have h: "Type msg = NewMessage" "Message.Conn msg = Some c"
      "map_of (clients s) (RemoteAddr_String c) = Some author"
      "MessageRate \<le> Seconds (Sub (Now e) (LastMessage author))"
      "ValidString (Text msg)"
    by simp_all
  let ?a = "RemoteAddr_String c"
  let ?cs = "AList.update ?a (author\<lparr>StrikeCount := 0, LastMessage := Now e\<rparr>) (clients s)"
  let ?out = "\<lambda>w. Log (''Client '' @ sensitive safeMode ?a @ '' sent: '' @ Text msg) # broadcast safeMode w ?a (Text msg) ?cs"
  have eq: "server_step safeMode (e\<lparr>WriteErr := w\<rparr>) s msg = Inr (s\<lparr>clients := ?cs\<rparr>, ?out w)" for w
    using h by (simp add: server_step_accepted)
  show "\<exists>s' out. server_step safeMode e s msg = Inr (s', out)
          \<and> (\<forall>d b. Write d b \<in> set out
                 \<longrightarrow> b = Payload (Text msg) \<and> RemoteAddr_String d \<noteq> RemoteAddr_String c)
          \<and> (\<forall>b. Write c b \<notin> set out)
          \<and> (registry_ok s \<longrightarrow>
               filter is_Write out
                 = map (\<lambda>(k, cl). Write (Client.Conn cl) (Payload (Text msg)))
                       (filter (\<lambda>(k, cl). k \<noteq> RemoteAddr_String c) (clients s)))
          \<and> filter is_Close out = []
          \<and> map fst (clients s') = map fst (clients s)
          \<and> (\<forall>k. k \<noteq> RemoteAddr_String c \<longrightarrow> map_of (clients s') k = map_of (clients s) k)
          \<and> (\<forall>w. \<exists>out'. server_step safeMode (e\<lparr>WriteErr := w\<rparr>) s msg = Inr (s', out')
                 \<and> filter (\<lambda>x. \<not> is_Log x) out' = filter (\<lambda>x. \<not> is_Log x) out)"
  proof (intro exI conjI)
    show "server_step safeMode e s msg = Inr (s\<lparr>clients := ?cs\<rparr>, ?out (WriteErr e))"
      using eq [of "WriteErr e"] by simp
    show "\<forall>d b. Write d b \<in> set (?out (WriteErr e))
            \<longrightarrow> b = Payload (Text msg) \<and> RemoteAddr_String d \<noteq> RemoteAddr_String c"
      by (simp add: broadcast_Write_iff)
    show "\<forall>b. Write c b \<notin> set (?out (WriteErr e))"
      by (simp add: broadcast_Write_iff)
    show "registry_ok s \<longrightarrow>
            filter is_Write (?out (WriteErr e))
              = map (\<lambda>(k, cl). Write (Client.Conn cl) (Payload (Text msg)))
                    (filter (\<lambda>(k, cl). k \<noteq> RemoteAddr_String c) (clients s))"
      using h(3) by (simp add: broadcast_recipients)
    show "filter is_Close (?out (WriteErr e)) = []"
      by (simp add: broadcast_no_close)
    show "map fst (clients (s\<lparr>clients := ?cs\<rparr>)) = map fst (clients s)"
      using h(3) by (simp add: update_same_keys)
    show "\<forall>k. k \<noteq> RemoteAddr_String c
            \<longrightarrow> map_of (clients (s\<lparr>clients := ?cs\<rparr>)) k = map_of (clients s) k"
      by (simp add: update_conv')
    show "\<forall>w. \<exists>out'. server_step safeMode (e\<lparr>WriteErr := w\<rparr>) s msg = Inr (s\<lparr>clients := ?cs\<rparr>, out')
            \<and> filter (\<lambda>x. \<not> is_Log x) out' = filter (\<lambda>x. \<not> is_Log x) (?out (WriteErr e))"
    proof
      fix w
      have "filter (\<lambda>x. \<not> is_Log x) (?out w) = filter (\<lambda>x. \<not> is_Log x) (?out (WriteErr e))"
        using broadcast_not_log [of safeMode w ?a "Text msg" ?cs safeMode "WriteErr e"] by simp
      with eq [of w] show "\<exists>out'. server_step safeMode (e\<lparr>WriteErr := w\<rparr>) s msg
                                = Inr (s\<lparr>clients := ?cs\<rparr>, out')
            \<and> filter (\<lambda>x. \<not> is_Log x) out' = filter (\<lambda>x. \<not> is_Log x) (?out (WriteErr e))"
        by blast
    qed
  qed
next
  assume "Type lmsg = NewMessage \<and> Message.Conn lmsg = Some c
      \<and> LegacyMessage.Name lmsg = Some n
      \<and> map_of (clients ls) (RemoteAddr_String c) = Some lauthor
      \<and> MessageRate \<le> Seconds (Sub (Now e) (LastMessage lauthor))
      \<and> ValidString (Text lmsg)"
  then have h: "Type lmsg = NewMessage" "Message.Conn lmsg = Some c"
      "map_of (clients ls) (RemoteAddr_String c) = Some lauthor"
      "MessageRate \<le> Seconds (Sub (Now e) (LastMessage lauthor))"
      "ValidString (Text lmsg)"
      "LegacyMessage.Name lmsg = Some n"
    by simp_all
  let ?a = "RemoteAddr_String c"
  let ?cs = "AList.update ?a (lauthor\<lparr>StrikeCount := 0, LastMessage := Now e\<rparr>) (clients ls)"
  let ?out = "\<lambda>w. Log (n @ '' sent: '' @ Text lmsg) # broadcast safeMode w ?a (n @ '': '' @ Text lmsg) ?cs"
  have eq: "legacy_server_step safeMode (e\<lparr>WriteErr := w\<rparr>) ls lmsg = Inr (ls\<lparr>clients := ?cs\<rparr>, ?out w)" for w
    using h by (simp add: legacy_server_step_accepted)
  show "\<exists>s' out. legacy_server_step safeMode e ls lmsg = Inr (s', out)
          \<and> (\<forall>d b. Write d b \<in> set out
                 \<longrightarrow> b = Payload (n @ '': '' @ Text lmsg) \<and> RemoteAddr_String d \<noteq> RemoteAddr_String c)
          \<and> (\<forall>b. Write c b \<notin> set out)
          \<and> (registry_ok ls \<longrightarrow>
               filter is_Write out
                 = map (\<lambda>(k, cl). Write (Client.Conn cl) (Payload (n @ '': '' @ Text lmsg)))
                       (filter (\<lambda>(k, cl). k \<noteq> RemoteAddr_String c) (clients ls)))
          \<and> filter is_Close out = []
          \<and> map fst (clients s') = map fst (clients ls)
          \<and> (\<forall>k. k \<noteq> RemoteAddr_String c \<longrightarrow> map_of (clients s') k = map_of (clients ls) k)
          \<and> (\<forall>w. \<exists>out'. legacy_server_step safeMode (e\<lparr>WriteErr := w\<rparr>) ls lmsg = Inr (s', out')
                 \<and> filter (\<lambda>x. \<not> is_Log x) out' = filter (\<lambda>x. \<not> is_Log x) out)"
  proof (intro exI conjI)
    show "legacy_server_step safeMode e ls lmsg = Inr (ls\<lparr>clients := ?cs\<rparr>, ?out (WriteErr e))"
      using eq [of "WriteErr e"] by simp
    show "\<forall>d b. Write d b \<in> set (?out (WriteErr e))
            \<longrightarrow> b = Payload (n @ '': '' @ Text lmsg) \<and> RemoteAddr_String d \<noteq> RemoteAddr_String c"
      by (simp add: broadcast_Write_iff)
    show "\<forall>b. Write c b \<notin> set (?out (WriteErr e))"
      by (simp add: broadcast_Write_iff)
    show "registry_ok ls \<longrightarrow>
            filter is_Write (?out (WriteErr e))
              = map (\<lambda>(k, cl). Write (Client.Conn cl) (Payload (n @ '': '' @ Text lmsg)))
                    (filter (\<lambda>(k, cl). k \<noteq> RemoteAddr_String c) (clients ls))"
      using h(3) by (simp add: broadcast_recipients)
    show "filter is_Close (?out (WriteErr e)) = []"
      by (simp add: broadcast_no_close)
    show "map fst (clients (ls\<lparr>clients := ?cs\<rparr>)) = map fst (clients ls)"
      using h(3) by (simp add: update_same_keys)
    show "\<forall>k. k \<noteq> RemoteAddr_String c
            \<longrightarrow> map_of (clients (ls\<lparr>clients := ?cs\<rparr>)) k = map_of (clients ls) k"
      by (simp add: update_conv')
    show "\<forall>w. \<exists>out'. legacy_server_step safeMode (e\<lparr>WriteErr := w\<rparr>) ls lmsg = Inr (ls\<lparr>clients := ?cs\<rparr>, out')
            \<and> filter (\<lambda>x. \<not> is_Log x) out' = filter (\<lambda>x. \<not> is_Log x) (?out (WriteErr e))"
    proof
      fix w
      have "filter (\<lambda>x. \<not> is_Log x) (?out w) = filter (\<lambda>x. \<not> is_Log x) (?out (WriteErr e))"
        using broadcast_not_log [of safeMode w ?a "n @ '': '' @ Text lmsg" ?cs safeMode "WriteErr e"] by simp
      with eq [of w] show "\<exists>out'. legacy_server_step safeMode (e\<lparr>WriteErr := w\<rparr>) ls lmsg
                                = Inr (ls\<lparr>clients := ?cs\<rparr>, out')
            \<and> filter (\<lambda>x. \<not> is_Log x) out' = filter (\<lambda>x. \<not> is_Log x) (?out (WriteErr e))"
        by blast
    qed
  qed
qed

theorem broadcast_reaches_all_others_witness:
  "registry_ok lobby \<and> registry_ok legacy_lobby
   \<and> WriteErr (flaky 1000000000) bob = Some ''broken pipe''
   \<and> server_step False (flaky 1000000000) lobby (msg_inbound alice ''hi'')
       = Inr (lobby\<lparr>clients := [(RemoteAddr_String alice, session alice 1000000000 0),
                                 (RemoteAddr_String bob, session bob 0 0),
                                 (RemoteAddr_String carol, session carol 0 3)]\<rparr>,
              [Log ''Client 10.0.0.5:40001 sent: hi'',
               Write bob (Payload ''hi''),
               Log (''could not send data to 10.0.0.6:40002: broken pipe'' @ nl),
               Write carol (Payload ''hi'')])
   \<and> legacy_server_step False (flaky 1000000000) legacy_lobby
         (legacy_inbound alice ''al'' ''hi'')
       = Inr (legacy_lobby
                \<lparr>clients := [(RemoteAddr_String alice, legacy_session alice ''al'' 1000000000 0),
                              (RemoteAddr_String bob, legacy_session bob ''bo'' 0 0),
                              (RemoteAddr_String carol, legacy_session carol ''ca'' 0 3)]\<rparr>,
              [Log ''al sent: hi'',
               Write bob (Payload ''al: hi''),
               Log (''could not send data to 10.0.0.6:40002: broken pipe'' @ nl),
               Write carol (Payload ''al: hi'')])"
  using broadcast_reaches_all_others
    [where msg = "msg_inbound alice ''hi''" and c = alice and s = lobby
       and safeMode = False and e = "flaky 1000000000" and author = "session alice 0 10"
       and lmsg = "legacy_inbound alice ''al'' ''hi''" and ls = legacy_lobby
       and lauthor = "legacy_session alice ''al'' 0 10" and n = "''al''"]
  by (simp add: example_defs constant_defs server_step_def legacy_server_step_def
        Let_def sensitive_def registry_ok_def)

text \<open>
  C2. A Connected event from a host that has a ban record of time \<open>T\<close>. Before \<open>T\<close> plus
  the ban duration (\<open>BanLimit\<close> seconds, the clock counting nanoseconds) the hub writes
  the notice with the seconds that remain, a positive number, closes the connection
  and leaves registry and ban list as they are. From that time on it deletes the
  record and registers a session for the connection, with no strikes; it writes to no
  connection and closes none.
\<close>

theorem ban_gating:
  "(Type msg = ClientConnected \<and> Message.Conn msg = Some c
      \<and> bannedMfs s (RemoteAddr_IP_String c) = Some T
    \<longrightarrow> (real_of_int (Now e) < real_of_int T + BanLimit * 1000000000
         \<longrightarrow> server_step safeMode e s msg
               = Inr (s, [Write c (BanNotice (BanLimit - Seconds (Sub (Now e) T))), Close c])
             \<and> 0 < BanLimit - Seconds (Sub (Now e) T))
      \<and> (real_of_int T + BanLimit * 1000000000 \<le> real_of_int (Now e)
         \<longrightarrow> (\<exists>s' out. server_step safeMode e s msg = Inr (s', out)
               \<and> bannedMfs s' = (bannedMfs s)(RemoteAddr_IP_String c := None)
               \<and> map_of (clients s') (RemoteAddr_String c)
                   = Some \<lparr>Client.Conn = c, LastMessage = Now_again e, StrikeCount = 0\<rparr>
               \<and> (\<forall>k. k \<noteq> RemoteAddr_String c
                      \<longrightarrow> map_of (clients s') k = map_of (clients s) k)
               \<and> filter is_Write out = [] \<and> filter is_Close out = [])))
   \<and> (Type lmsg = ClientConnected \<and> Message.Conn lmsg = Some c
      \<and> bannedMfs ls (RemoteAddr_IP_String c) = Some T
    \<longrightarrow> (real_of_int (Now e) < real_of_int T + BanLimit * 1000000000
         \<longrightarrow> legacy_server_step safeMode e ls lmsg
               = Inr (ls, [Write c (BanNotice (BanLimit - Seconds (Sub (Now e) T))), Close c])
             \<and> 0 < BanLimit - Seconds (Sub (Now e) T))
      \<and> (real_of_int T + BanLimit * 1000000000 \<le> real_of_int (Now e)
         \<and> LegacyMessage.Name lmsg = Some n
         \<longrightarrow> (\<exists>s' out. legacy_server_step safeMode e ls lmsg = Inr (s', out)
               \<and> bannedMfs s' = (bannedMfs ls)(RemoteAddr_IP_String c := None)
               \<and> map_of (clients s') (RemoteAddr_String c)
                   = Some \<lparr>Client.Conn = c, LastMessage = Now_again e, StrikeCount = 0,
                         LegacyClient.Name = Some n\<rparr>
               \<and> (\<forall>k. k \<noteq> RemoteAddr_String c
                      \<longrightarrow> map_of (clients s') k = map_of (clients ls) k)
               \<and> filter is_Write out = [] \<and> filter is_Close out = [])))"
  by (auto simp add: ban_expiry_time not_le [symmetric] server_step_connected_banned
        legacy_server_step_connected_banned server_step_connected_expired
        legacy_server_step_connected_expired update_conv')

theorem ban_gating_witness:
  "bannedMfs lobby (RemoteAddr_IP_String dave) = Some 0
   \<and> server_step SafeMode (at_time 4000000000) lobby (msg_connected dave)
       = Inr (lobby, [Write dave (BanNotice 6), Close dave])
   \<and> legacy_server_step SafeMode (at_time 4000000000) legacy_lobby (legacy_connected dave ''dd'')
       = Inr (legacy_lobby, [Write dave (BanNotice 6), Close dave])
   \<and> server_step SafeMode (at_time 10000000000) lobby (msg_connected dave)
       = Inr (\<lparr>clients = [(RemoteAddr_String alice, session alice 0 10),
                           (RemoteAddr_String bob, session bob 0 0),
                           (RemoteAddr_String carol, session carol 0 3),
                           (RemoteAddr_String dave, session dave 10000000000 0)],
                bannedMfs = Map.empty\<rparr>,
              [Log (''Client [REDACTED] connected'' @ nl)])
   \<and> legacy_server_step SafeMode (at_time 10000000000) legacy_lobby
         (legacy_connected dave ''dd'')
       = Inr (\<lparr>clients = [(RemoteAddr_String alice, legacy_session alice ''al'' 0 10),
                           (RemoteAddr_String bob, legacy_session bob ''bo'' 0 0),
                           (RemoteAddr_String carol, legacy_session carol ''ca'' 0 3),
                           (RemoteAddr_String dave, legacy_session dave ''dd'' 10000000000 0)],
                bannedMfs = Map.empty\<rparr>,
              [Log (''dd connected: [REDACTED]'' @ nl)])"
  using ban_gating
    [where msg = "msg_connected dave" and c = dave and s = lobby and T = 0
       and safeMode = SafeMode and e = "at_time 4000000000"
       and lmsg = "legacy_connected dave ''dd''" and ls = legacy_lobby and n = "''dd''"]
    ban_gating
    [where msg = "msg_connected dave" and c = dave and s = lobby and T = 0
       and safeMode = SafeMode and e = "at_time 10000000000"
       and lmsg = "legacy_connected dave ''dd''" and ls = legacy_lobby and n = "''dd''"]
  by (simp add: example_defs constant_defs server_step_def legacy_server_step_def Let_def
        sensitive_def)

text \<open>
  C10. What a pass of the loop can do to the ban list. Either the list is as before, or
  the message was a Connected event from a host whose record had expired and that
  record is deleted, or it was a strike that took the sender's count above the limit and
  the sender's host is recorded with the current time. In particular a Connected event
  from a host whose record has not expired leaves the whole state, the time in the
  record included, as it was.
\<close>

theorem ban_list_frame:
  "(server_step safeMode e s msg = Inr (s', out)
    \<longrightarrow> (bannedMfs s' = bannedMfs s
         \<or> (\<exists>c T. Type msg = ClientConnected \<and> Message.Conn msg = Some c
               \<and> bannedMfs s (RemoteAddr_IP_String c) = Some T
               \<and> BanLimit \<le> Seconds (Sub (Now e) T)
               \<and> bannedMfs s' = (bannedMfs s)(RemoteAddr_IP_String c := None))
         \<or> (\<exists>c author. Type msg = NewMessage \<and> Message.Conn msg = Some c
               \<and> map_of (clients s) (RemoteAddr_String c) = Some author
               \<and> (Seconds (Sub (Now e) (LastMessage author)) < MessageRate
                    \<or> \<not> ValidString (Text msg))
               \<and> StrikeLimit < int_incr (StrikeCount author)
               \<and> bannedMfs s' = (bannedMfs s)(RemoteAddr_IP_String c \<mapsto> Now e)))
      \<and> (\<forall>c T. Type msg = ClientConnected \<and> Message.Conn msg = Some c
               \<and> bannedMfs s (RemoteAddr_IP_String c) = Some T
               \<and> Seconds (Sub (Now e) T) < BanLimit
             \<longrightarrow> s' = s \<and> bannedMfs s' (RemoteAddr_IP_String c) = Some T))
   \<and> (legacy_server_step safeMode e ls lmsg = Inr (ls', out)
    \<longrightarrow> (bannedMfs ls' = bannedMfs ls
         \<or> (\<exists>c T. Type lmsg = ClientConnected \<and> Message.Conn lmsg = Some c
               \<and> bannedMfs ls (RemoteAddr_IP_String c) = Some T
               \<and> BanLimit \<le> Seconds (Sub (Now e) T)
               \<and> bannedMfs ls' = (bannedMfs ls)(RemoteAddr_IP_String c := None))
         \<or> (\<exists>c author. Type lmsg = NewMessage \<and> Message.Conn lmsg = Some c
               \<and> map_of (clients ls) (RemoteAddr_String c) = Some author
               \<and> (Seconds (Sub (Now e) (LastMessage author)) < MessageRate
                    \<or> \<not> ValidString (Text lmsg))
               \<and> StrikeLimit < int_incr (StrikeCount author)
               \<and> bannedMfs ls' = (bannedMfs ls)(RemoteAddr_IP_String c \<mapsto> Now e)))
      \<and> (\<forall>c T. Type lmsg = ClientConnected \<and> Message.Conn lmsg = Some c
               \<and> bannedMfs ls (RemoteAddr_IP_String c) = Some T
               \<and> Seconds (Sub (Now e) T) < BanLimit
             \<longrightarrow> ls' = ls \<and> bannedMfs ls' (RemoteAddr_IP_String c) = Some T))"
proof (intro conjI impI)
  assume step: "server_step safeMode e s msg = Inr (s', out)"
  then show "bannedMfs s' = bannedMfs s
         \<or> (\<exists>c T. Type msg = ClientConnected \<and> Message.Conn msg = Some c
               \<and> bannedMfs s (RemoteAddr_IP_String c) = Some T
               \<and> BanLimit \<le> Seconds (Sub (Now e) T)
               \<and> bannedMfs s' = (bannedMfs s)(RemoteAddr_IP_String c := None))
         \<or> (\<exists>c author. Type msg = NewMessage \<and> Message.Conn msg = Some c
               \<and> map_of (clients s) (RemoteAddr_String c) = Some author
               \<and> (Seconds (Sub (Now e) (LastMessage author)) < MessageRate
                    \<or> \<not> ValidString (Text msg))
               \<and> StrikeLimit < int_incr (StrikeCount author)
               \<and> bannedMfs s' = (bannedMfs s)(RemoteAddr_IP_String c \<mapsto> Now e))"
  proof (cases rule: server_step_Inr_cases)
    case (admitted c bans)
    then show ?thesis by auto
  next
    case (ban c author)
    then have "Type msg = NewMessage \<and> Message.Conn msg = Some c
               \<and> map_of (clients s) (RemoteAddr_String c) = Some author
               \<and> (Seconds (Sub (Now e) (LastMessage author)) < MessageRate
                    \<or> \<not> ValidString (Text msg))
               \<and> StrikeLimit < int_incr (StrikeCount author)
               \<and> bannedMfs s' = (bannedMfs s)(RemoteAddr_IP_String c \<mapsto> Now e)"
      by (simp add: not_le)
    then show ?thesis by blast
  qed simp_all
  show "\<forall>c T. Type msg = ClientConnected \<and> Message.Conn msg = Some c
               \<and> bannedMfs s (RemoteAddr_IP_String c) = Some T
               \<and> Seconds (Sub (Now e) T) < BanLimit
             \<longrightarrow> s' = s \<and> bannedMfs s' (RemoteAddr_IP_String c) = Some T"
    using step by (auto simp add: server_step_connected_banned)
next
  assume step: "legacy_server_step safeMode e ls lmsg = Inr (ls', out)"
  then show "bannedMfs ls' = bannedMfs ls
         \<or> (\<exists>c T. Type lmsg = ClientConnected \<and> Message.Conn lmsg = Some c
               \<and> bannedMfs ls (RemoteAddr_IP_String c) = Some T
               \<and> BanLimit \<le> Seconds (Sub (Now e) T)
               \<and> bannedMfs ls' = (bannedMfs ls)(RemoteAddr_IP_String c := None))
         \<or> (\<exists>c author. Type lmsg = NewMessage \<and> Message.Conn lmsg = Some c
               \<and> map_of (clients ls) (RemoteAddr_String c) = Some author
               \<and> (Seconds (Sub (Now e) (LastMessage author)) < MessageRate
                    \<or> \<not> ValidString (Text lmsg))
               \<and> StrikeLimit < int_incr (StrikeCount author)
               \<and> bannedMfs ls' = (bannedMfs ls)(RemoteAddr_IP_String c \<mapsto> Now e))"
  proof (cases rule: legacy_server_step_Inr_cases)
    case (admitted c n bans)
    then show ?thesis by auto
  next
    case (ban c author)
    then have "Type lmsg = NewMessage \<and> Message.Conn lmsg = Some c
               \<and> map_of (clients ls) (RemoteAddr_String c) = Some author
               \<and> (Seconds (Sub (Now e) (LastMessage author)) < MessageRate
                    \<or> \<not> ValidString (Text lmsg))
               \<and> StrikeLimit < int_incr (StrikeCount author)
               \<and> bannedMfs ls' = (bannedMfs ls)(RemoteAddr_IP_String c \<mapsto> Now e)"
      by (simp add: not_le)
    then show ?thesis by blast
  qed simp_all
  show "\<forall>c T. Type lmsg = ClientConnected \<and> Message.Conn lmsg = Some c
               \<and> bannedMfs ls (RemoteAddr_IP_String c) = Some T
               \<and> Seconds (Sub (Now e) T) < BanLimit
             \<longrightarrow> ls' = ls \<and> bannedMfs ls' (RemoteAddr_IP_String c) = Some T"
    using step by (auto simp add: legacy_server_step_connected_banned)
qed

theorem ban_list_frame_witness:
  "server_step SafeMode (at_time 4000000000) lobby (msg_connected dave)
     = Inr (lobby, [Write dave (BanNotice 6), Close dave])
   \<and> bannedMfs lobby (RemoteAddr_IP_String dave) = Some 0
   \<and> legacy_server_step SafeMode (at_time 4000000000) legacy_lobby (legacy_connected dave ''dd'')
     = Inr (legacy_lobby, [Write dave (BanNotice 6), Close dave])
   \<and> bannedMfs legacy_lobby (RemoteAddr_IP_String dave) = Some 0"
  using ban_list_frame
    [where msg = "msg_connected dave" and s = lobby and s' = lobby
       and out = "[Write dave (BanNotice 6), Close dave]"
       and safeMode = SafeMode and e = "at_time 4000000000"
       and lmsg = "legacy_connected dave ''dd''" and ls = legacy_lobby and ls' = legacy_lobby]
  by (simp add: example_defs constant_defs server_step_def legacy_server_step_def Let_def)

text \<open>
  C9. For every sequence of messages, with the same clock readings and write outcomes,
  the loop run with \<^verbatim>\<open>SafeMode\<close> true and with \<^verbatim>\<open>SafeMode\<close> false ends in the same state
  (or the same panic) and produces the same effects in the same order once the text of
  every log line is blanked; so the writes and the closes are the same.
\<close>

theorem safe_mode_changes_log_text_only:
  "fst (server True s evs) = fst (server False s evs)
   \<and> map redact (snd (server True s evs)) = map redact (snd (server False s evs))
   \<and> filter (\<lambda>x. \<not> is_Log x) (snd (server True s evs))
       = filter (\<lambda>x. \<not> is_Log x) (snd (server False s evs))
   \<and> fst (legacy_server True ls levs) = fst (legacy_server False ls levs)
   \<and> map redact (snd (legacy_server True ls levs)) = map redact (snd (legacy_server False ls levs))
   \<and> filter (\<lambda>x. \<not> is_Log x) (snd (legacy_server True ls levs))
       = filter (\<lambda>x. \<not> is_Log x) (snd (legacy_server False ls levs))"
proof -
  have m: "map_prod id (map redact) (server True s evs) = map_prod id (map redact) (server False s evs)"
    by (rule server_safe_mode)
  have l: "map_prod id (map redact) (legacy_server True ls levs)
           = map_prod id (map redact) (legacy_server False ls levs)"
    by (rule legacy_server_safe_mode)
  from m have m1: "fst (server True s evs) = fst (server False s evs)"
    and m2: "map redact (snd (server True s evs)) = map redact (snd (server False s evs))"
    by (simp_all add: prod_eq_iff)
  from l have l1: "fst (legacy_server True ls levs) = fst (legacy_server False ls levs)"
    and l2: "map redact (snd (legacy_server True ls levs)) = map redact (snd (legacy_server False ls levs))"
    by (simp_all add: prod_eq_iff)
  from m1 m2 l1 l2 redact_eq_filter [OF m2] redact_eq_filter [OF l2] show ?thesis
    by blast
qed

text \<open>
  C3, as stated, fails. From the empty state: two connections from one host are admitted,
  the first then sends eleven messages one millisecond apart. The eleventh strike
  records the host in the ban list and closes the first connection, yet the
  registry still holds the session of that very address, with eleven strikes, while the
  record is not expired. After the Disconnected event of the first connection the
  session of the second connection of the banned host is still registered.
\<close>

theorem banned_host_keeps_sessions:
  "server SafeMode hub_init flood
     = (Inr \<lparr>clients = [(RemoteAddr_String alice, session alice 0 11),
                         (RemoteAddr_String alice_tab, session alice_tab 0 0)],
              bannedMfs = [RemoteAddr_IP_String alice \<mapsto> 11000000]\<rparr>,
        [Log (''Client [REDACTED] connected'' @ nl), Log (''Client [REDACTED] connected'' @ nl),
         Close alice])
   \<and> Seconds (Sub 11000000 11000000) < BanLimit
   \<and> fst (server SafeMode hub_init (flood @ [(at_time 12000000, msg_disconnected alice)]))
     = Inr \<lparr>clients = [(RemoteAddr_String alice_tab, session alice_tab 0 0)],
             bannedMfs = [RemoteAddr_IP_String alice_tab \<mapsto> 11000000]\<rparr>
   \<and> Seconds (Sub 12000000 11000000) < BanLimit
   \<and> legacy_server SafeMode hub_init legacy_flood
     = (Inr \<lparr>clients = [(RemoteAddr_String alice, legacy_session alice ''al'' 0 11),
                         (RemoteAddr_String alice_tab, legacy_session alice_tab ''al2'' 0 0)],
              bannedMfs = [RemoteAddr_IP_String alice \<mapsto> 11000000]\<rparr>,
        [Log (''al connected: [REDACTED]'' @ nl), Log (''al2 connected: [REDACTED]'' @ nl),
         Close alice])
   \<and> fst (legacy_server SafeMode hub_init (legacy_flood @ [(at_time 12000000, legacy_disconnected alice)]))
     = Inr \<lparr>clients = [(RemoteAddr_String alice_tab, legacy_session alice_tab ''al2'' 0 0)],
             bannedMfs = [RemoteAddr_IP_String alice_tab \<mapsto> 11000000]\<rparr>"
  by (simp add: example_defs constant_defs
        server_step_def legacy_server_step_def Let_def sensitive_def)

text \<open>
  C3, amended. A strike that takes the count above the limit records the host, closes
  the connection of the sender's session and leaves that session registered; the
  Disconnected event for that address then removes it, and the ban record stays. The
  ban removes no key from the registry, and every session under another address, those
  of the banned host included, is after the ban and after that Disconnected event
  what it was before. While a host's record has not expired, a Connected event from
  that host changes neither the registry nor the ban list.
\<close>

theorem ban_then_disconnect_clears_session:
  "(Type msg = NewMessage \<and> Message.Conn msg = Some c
      \<and> map_of (clients s) (RemoteAddr_String c) = Some author
      \<and> (Seconds (Sub (Now e) (LastMessage author)) < MessageRate \<or> \<not> ValidString (Text msg))
      \<and> StrikeLimit < int_incr (StrikeCount author)
      \<and> Type msg' = ClientDisconnected \<and> Message.Conn msg' = Some c'
      \<and> RemoteAddr_String c' = RemoteAddr_String c
    \<longrightarrow> (\<exists>s1 out1 s2 out2.
          server_step safeMode e s msg = Inr (s1, out1)
          \<and> out1 = [Close (Client.Conn author)]
          \<and> bannedMfs s1 (RemoteAddr_IP_String c) = Some (Now e)
          \<and> map_of (clients s1) (RemoteAddr_String c)
              = Some (author\<lparr>StrikeCount := int_incr (StrikeCount author)\<rparr>)
          \<and> map fst (clients s1) = map fst (clients s)
          \<and> (\<forall>k. k \<noteq> RemoteAddr_String c \<longrightarrow> map_of (clients s1) k = map_of (clients s) k)
          \<and> server_step safeMode e' s1 msg' = Inr (s2, out2)
          \<and> map_of (clients s2) (RemoteAddr_String c) = None
          \<and> (\<forall>k. k \<noteq> RemoteAddr_String c \<longrightarrow> map_of (clients s2) k = map_of (clients s) k)
          \<and> map fst (clients s2) = removeAll (RemoteAddr_String c) (map fst (clients s))
          \<and> bannedMfs s2 (RemoteAddr_IP_String c) = Some (Now e)))
   \<and> (Type msg'' = ClientConnected \<and> Message.Conn msg'' = Some d
      \<and> bannedMfs s (RemoteAddr_IP_String d) = Some T
      \<and> Seconds (Sub (Now e) T) < BanLimit
    \<longrightarrow> (\<exists>out. server_step safeMode e s msg'' = Inr (s, out)))
   \<and> (Type lmsg = NewMessage \<and> Message.Conn lmsg = Some c
      \<and> map_of (clients ls) (RemoteAddr_String c) = Some lauthor
      \<and> (Seconds (Sub (Now e) (LastMessage lauthor)) < MessageRate \<or> \<not> ValidString (Text lmsg))
      \<and> StrikeLimit < int_incr (StrikeCount lauthor)
      \<and> Type lmsg' = ClientDisconnected \<and> Message.Conn lmsg' = Some c'
      \<and> RemoteAddr_String c' = RemoteAddr_String c
    \<longrightarrow> (\<exists>s1 out1 s2 out2.
          legacy_server_step safeMode e ls lmsg = Inr (s1, out1)
          \<and> out1 = [Close (Client.Conn lauthor)]
          \<and> bannedMfs s1 (RemoteAddr_IP_String c) = Some (Now e)
          \<and> map_of (clients s1) (RemoteAddr_String c)
              = Some (lauthor\<lparr>StrikeCount := int_incr (StrikeCount lauthor)\<rparr>)
          \<and> map fst (clients s1) = map fst (clients ls)
          \<and> (\<forall>k. k \<noteq> RemoteAddr_String c \<longrightarrow> map_of (clients s1) k = map_of (clients ls) k)
          \<and> legacy_server_step safeMode e' s1 lmsg' = Inr (s2, out2)
          \<and> map_of (clients s2) (RemoteAddr_String c) = None
          \<and> (\<forall>k. k \<noteq> RemoteAddr_String c \<longrightarrow> map_of (clients s2) k = map_of (clients ls) k)
          \<and> map fst (clients s2) = removeAll (RemoteAddr_String c) (map fst (clients ls))
          \<and> bannedMfs s2 (RemoteAddr_IP_String c) = Some (Now e)))
   \<and> (Type lmsg'' = ClientConnected \<and> Message.Conn lmsg'' = Some d
      \<and> bannedMfs ls (RemoteAddr_IP_String d) = Some T
      \<and> Seconds (Sub (Now e) T) < BanLimit
    \<longrightarrow> (\<exists>out. legacy_server_step safeMode e ls lmsg'' = Inr (ls, out)))"
  by (auto simp add: server_step_strike legacy_server_step_strike server_step_disconnected
        legacy_server_step_disconnected server_step_connected_banned
        legacy_server_step_connected_banned update_conv' delete_conv' not_le
        update_same_keys delete_keys delete_update_same)

theorem ban_then_disconnect_clears_session_witness:
  "\<not> ValidString [CHR 0xFF]
   \<and> RemoteAddr_IP_String alice_tab = RemoteAddr_IP_String alice
   \<and> server_step SafeMode (at_time 2000000000) shared_host (msg_inbound alice [CHR 0xFF])
     = Inr (\<lparr>clients = [(RemoteAddr_String alice, session alice 0 11),
                         (RemoteAddr_String alice_tab, session alice_tab 0 2),
                         (RemoteAddr_String bob, session bob 0 0)],
              bannedMfs = [RemoteAddr_IP_String dave \<mapsto> 0,
                           RemoteAddr_IP_String alice \<mapsto> 2000000000]\<rparr>,
            [Close alice])
   \<and> fst (server SafeMode shared_host
            [(at_time 2000000000, msg_inbound alice [CHR 0xFF]),
             (at_time 2000000001, msg_disconnected alice)])
     = Inr \<lparr>clients = [(RemoteAddr_String alice_tab, session alice_tab 0 2),
                        (RemoteAddr_String bob, session bob 0 0)],
             bannedMfs = [RemoteAddr_IP_String dave \<mapsto> 0,
                          RemoteAddr_IP_String alice \<mapsto> 2000000000]\<rparr>
   \<and> server_step SafeMode (at_time 2000000000) shared_host (msg_connected dave)
     = Inr (shared_host, [Write dave (BanNotice 8), Close dave])
   \<and> legacy_server_step SafeMode (at_time 2000000000) legacy_shared_host
        (legacy_inbound alice ''al'' [CHR 0xFF])
     = Inr (\<lparr>clients = [(RemoteAddr_String alice, legacy_session alice ''al'' 0 11),
                         (RemoteAddr_String alice_tab, legacy_session alice_tab ''al2'' 0 2),
                         (RemoteAddr_String bob, legacy_session bob ''bo'' 0 0)],
              bannedMfs = [RemoteAddr_IP_String dave \<mapsto> 0,
                           RemoteAddr_IP_String alice \<mapsto> 2000000000]\<rparr>,
            [Close alice])
   \<and> fst (legacy_server SafeMode legacy_shared_host
            [(at_time 2000000000, legacy_inbound alice ''al'' [CHR 0xFF]),
             (at_time 2000000001, legacy_disconnected alice)])
     = Inr \<lparr>clients = [(RemoteAddr_String alice_tab, legacy_session alice_tab ''al2'' 0 2),
                        (RemoteAddr_String bob, legacy_session bob ''bo'' 0 0)],
             bannedMfs = [RemoteAddr_IP_String dave \<mapsto> 0,
                          RemoteAddr_IP_String alice \<mapsto> 2000000000]\<rparr>
   \<and> legacy_server_step SafeMode (at_time 2000000000) legacy_shared_host
        (legacy_connected dave ''dd'')
     = Inr (legacy_shared_host, [Write dave (BanNotice 8), Close dave])"
  using ban_then_disconnect_clears_session
    [where msg = "msg_inbound alice [CHR 0xFF]" and c = alice and s = shared_host
       and safeMode = SafeMode and e = "at_time 2000000000" and e' = "at_time 2000000001"
       and author = "session alice 0 10" and msg' = "msg_disconnected alice" and c' = alice
       and msg'' = "msg_connected dave" and d = dave and T = 0
       and lmsg = "legacy_inbound alice ''al'' [CHR 0xFF]" and ls = legacy_shared_host
       and lauthor = "legacy_session alice ''al'' 0 10" and lmsg' = "legacy_disconnected alice"
       and lmsg'' = "legacy_connected dave ''dd''"]
  by (simp add: example_defs constant_defs server_step_def legacy_server_step_def Let_def)

end
